theory Spec2Isabelle
  imports Main "HOL-Library.Word"
begin

unbundle bit_operations_syntax

section \<open>Data model\<close>

text \<open>
  Instants are milliseconds since the epoch, as a JavaScript \<open>Date\<close> holds them.
  A value that may be \<open>undefined\<close> or \<open>null\<close> in the source is an \<open>option\<close>.
  Header values and addresses are byte strings.
\<close>

type_synonym instant = int

text \<open>The \<open>Url\<close> model (its schema follows the redirect route in the sources).\<close>

record Url =
  url_id :: nat
  originalUrl :: string
  shortId :: string
  customAlias :: "string option"
  userId :: "nat option"
  isPasswordProtected :: bool
  password :: "string option"
  expiresAt :: "instant option"
  isActive :: bool
  clicks :: nat
  uniqueVisitors :: nat
  createdAt :: instant
  lastAccessed :: "instant option"

text \<open>
  The \<open>Analytics\<close> model (models/Analytics.js). The browser, operating system, device and
  location labels are produced by the user-agent parser and the IP lookup, two external
  libraries; no operation below reads them, and they are left out of the record.
\<close>

record Analytics =
  urlId :: nat
  visitorId :: string
  ipAddress :: "string option"
  userAgent :: string
  referrer :: "string option"
  timestamp :: instant
  isUnique :: bool

text \<open>The two collections of the database.\<close>

record Store =
  urls :: "Url list"
  analytics :: "Analytics list"

text \<open>What the routes read of an incoming request.\<close>

record Request =
  req_ip :: "string option"
  req_remoteAddress :: "string option"
  hdr_UserAgent :: "string option"
  hdr_AcceptLanguage :: "string option"
  hdr_Referrer :: "string option"

section \<open>JavaScript idioms\<close>

text \<open>\<open>undefined\<close>, \<open>null\<close> and the empty string are falsy.\<close>

definition truthy :: "string option \<Rightarrow> bool" where
  "truthy v = (case v of None \<Rightarrow> False | Some s \<Rightarrow> s \<noteq> [])"

text \<open>\<open>a || b\<close> on two possibly absent strings.\<close>

definition js_or :: "string option \<Rightarrow> string option \<Rightarrow> string option" where
  "js_or a b = (if truthy a then a else b)"

text \<open>\<open>a || ''\<close>.\<close>

definition or_empty :: "string option \<Rightarrow> string" where
  "or_empty a = (case a of None \<Rightarrow> [] | Some s \<Rightarrow> s)"

text \<open>\<open>a || null\<close>.\<close>

definition or_null :: "string option \<Rightarrow> string option" where
  "or_null a = (if truthy a then a else None)"

text \<open>A value inside a template literal: \<open>undefined\<close> is rendered as that word.\<close>

definition template :: "string option \<Rightarrow> string" where
  "template v = (case v of None \<Rightarrow> ''undefined'' | Some s \<Rightarrow> s)"

section \<open>The visitor fingerprint (routes/redirect.js, generateVisitorId)\<close>

text \<open>
  One round of the loop: \<open>hash = ((hash << 5) - hash) + char; hash = hash & hash\<close>.
  The intermediate sum is exact in a double and \<open>hash & hash\<close> reduces it to a signed
  32-bit integer, so the round is arithmetic modulo \<open>2 ^ 32\<close>.
\<close>

definition hashStep :: "32 word \<Rightarrow> char \<Rightarrow> 32 word" where
  "hashStep h c = (push_bit 5 h - h) + of_nat (of_char c)"

definition hashString :: "string \<Rightarrow> 32 word" where
  "hashString s = foldl hashStep 0 s"

definition digits36 :: string where
  "digits36 = ''0123456789abcdefghijklmnopqrstuvwxyz''"

text \<open>
  \<open>Number.prototype.toString(36)\<close> on an integer: the digits of the absolute value,
  most significant first, after a minus sign when the number is negative.
\<close>

function toString36 :: "int \<Rightarrow> string" where
  "toString36 n =
     (if n < 0 then CHR ''-'' # toString36 (- n)
      else if n < 36 then [digits36 ! nat n]
      else toString36 (n div 36) @ [digits36 ! nat (n mod 36)])"
  by pat_completeness auto
termination
  by (relation "measure (\<lambda>n. if n < 0 then nat (- n) + 1 else nat n)") auto

declare toString36.simps [simp del]

definition generateVisitorId :: "Request \<Rightarrow> string" where
  "generateVisitorId req =
     (let ip = js_or (req_ip req) (req_remoteAddress req);
          ua = or_empty (hdr_UserAgent req);
          al = or_empty (hdr_AcceptLanguage req);
          combined = template ip @ ''-'' @ ua @ ''-'' @ al
      in toString36 \<bar>sint (hashString combined)\<bar>)"

section \<open>Storage operations\<close>

text \<open>
  \<open>findOne\<close> returns the first document that satisfies the query, \<open>findByIdAndUpdate\<close>
  changes the first document with the given identifier.
\<close>

fun updateFirst :: "('a \<Rightarrow> bool) \<Rightarrow> ('a \<Rightarrow> 'a) \<Rightarrow> 'a list \<Rightarrow> 'a list" where
  "updateFirst p f [] = []"
| "updateFirst p f (x # xs) = (if p x then f x # xs else x # updateFirst p f xs)"

definition findByIdAndUpdate :: "nat \<Rightarrow> (Url \<Rightarrow> Url) \<Rightarrow> Url list \<Rightarrow> Url list" where
  "findByIdAndUpdate i f us = updateFirst (\<lambda>u. url_id u = i) f us"

definition findById :: "nat \<Rightarrow> Url list \<Rightarrow> Url option" where
  "findById i us = find (\<lambda>u. url_id u = i) us"

text \<open>
  The query of both redirect routes:
  \<open>{ $or: [{ shortId }, { customAlias: shortId }], isActive: true }\<close>.
\<close>

definition findOneByHandle :: "string \<Rightarrow> Url list \<Rightarrow> Url option" where
  "findOneByHandle h us =
     find (\<lambda>u. (shortId u = h \<or> customAlias u = Some h) \<and> isActive u) us"

text \<open>\<open>urlSchema.methods.isExpired\<close>, with the clock reading as an argument.\<close>

definition isExpired :: "instant \<Rightarrow> Url \<Rightarrow> bool" where
  "isExpired now u = (case expiresAt u of None \<Rightarrow> False | Some e \<Rightarrow> now > e)"

text \<open>The virtual \<open>shortUrl\<close>: \<open>this.customAlias || this.shortId\<close>.\<close>

definition shortUrl :: "Url \<Rightarrow> string" where
  "shortUrl u = (if truthy (customAlias u) then or_empty (customAlias u) else shortId u)"

text \<open>
  \<open>Analytics.create\<close>. The schema marks \<open>visitorId\<close>, \<open>ipAddress\<close> and \<open>userAgent\<close> as
  required, which for a string means present and not empty, and declares a unique index
  on \<open>(urlId, visitorId)\<close>; a document that fails either is rejected with an error.
  (\<open>CastError\<close> is the error of a value that a schema cannot cast to the type of its
  field.)
\<close>

datatype dbError = ValidationError | DuplicateKey | CastError

definition samePair :: "nat \<Rightarrow> string \<Rightarrow> Analytics \<Rightarrow> bool" where
  "samePair lid vid a = (urlId a = lid \<and> visitorId a = vid)"

definition requiredOk :: "Analytics \<Rightarrow> bool" where
  "requiredOk a = (visitorId a \<noteq> [] \<and> truthy (ipAddress a) \<and> userAgent a \<noteq> [])"

definition Analytics_create :: "Analytics \<Rightarrow> Analytics list \<Rightarrow> dbError + Analytics list" where
  "Analytics_create a as =
     (if \<not> requiredOk a then Inl ValidationError
      else if find (samePair (urlId a) (visitorId a)) as \<noteq> None then Inl DuplicateKey
      else Inr (as @ [a]))"

section \<open>Recording a visit (routes/redirect.js, trackAnalytics)\<close>

definition analyticsData :: "nat \<Rightarrow> Request \<Rightarrow> string \<Rightarrow> instant \<Rightarrow> bool \<Rightarrow> Analytics" where
  "analyticsData lid req vid now existing =
     \<lparr> urlId = lid, visitorId = vid,
       ipAddress = js_or (req_ip req) (req_remoteAddress req),
       userAgent = or_empty (hdr_UserAgent req),
       referrer = or_null (hdr_Referrer req),
       timestamp = now,
       isUnique = (\<not> existing) \<rparr>"

definition incUniqueVisitors :: "Url \<Rightarrow> Url" where
  "incUniqueVisitors u = u\<lparr>uniqueVisitors := uniqueVisitors u + 1\<rparr>"

text \<open>
  Every error raised inside \<open>trackAnalytics\<close> is caught and logged there: the store is
  then left as it was when the error was raised.
\<close>

definition trackAnalytics :: "nat \<Rightarrow> Request \<Rightarrow> string \<Rightarrow> instant \<Rightarrow> Store \<Rightarrow> Store" where
  "trackAnalytics lid req vid now st =
     (let existingVisit = find (samePair lid vid) (analytics st) in
      case Analytics_create (analyticsData lid req vid now (existingVisit \<noteq> None)) (analytics st) of
        Inl e \<Rightarrow> st
      | Inr as' \<Rightarrow>
          (let st1 = st\<lparr>analytics := as'\<rparr> in
           if existingVisit = None
           then st1\<lparr>urls := findByIdAndUpdate lid incUniqueVisitors (urls st1)\<rparr>
           else st1))"

section \<open>Resolution (routes/redirect.js)\<close>

datatype response =
    Redirect string
  | Verified string
  | NotFound
  | Expired
  | PasswordRequired string
  | PasswordIncorrect
  | PasswordMissing
  | NotProtected

definition recordClick :: "instant \<Rightarrow> Url \<Rightarrow> Url" where
  "recordClick now u = u\<lparr>clicks := clicks u + 1, lastAccessed := Some now\<rparr>"

definition visit :: "Url \<Rightarrow> Request \<Rightarrow> instant \<Rightarrow> Store \<Rightarrow> Store" where
  "visit url req now st =
     (let visitorId = generateVisitorId req;
          st1 = trackAnalytics (url_id url) req visitorId now st
      in st1\<lparr>urls := findByIdAndUpdate (url_id url) (recordClick now) (urls st1)\<rparr>)"

text \<open>\<open>GET /:shortId\<close>; \<open>pw\<close> is the \<open>password\<close> query parameter.\<close>

definition redirect_get ::
  "string \<Rightarrow> string option \<Rightarrow> Request \<Rightarrow> instant \<Rightarrow> Store \<Rightarrow> response \<times> Store" where
  "redirect_get h pw req now st =
     (case findOneByHandle h (urls st) of
        None \<Rightarrow> (NotFound, st)
      | Some url \<Rightarrow>
          if isExpired now url then (Expired, st)
          else if isPasswordProtected url \<and> \<not> truthy pw then (PasswordRequired (shortUrl url), st)
          else if isPasswordProtected url \<and> pw \<noteq> password url then (PasswordIncorrect, st)
          else (Redirect (originalUrl url), visit url req now st))"

text \<open>\<open>POST /:shortId/verify-password\<close>; \<open>pw\<close> is the \<open>password\<close> field of the body.\<close>

definition verify_password ::
  "string \<Rightarrow> string option \<Rightarrow> Request \<Rightarrow> instant \<Rightarrow> Store \<Rightarrow> response \<times> Store" where
  "verify_password h pw req now st =
     (if \<not> truthy pw then (PasswordMissing, st)
      else case findOneByHandle h (urls st) of
        None \<Rightarrow> (NotFound, st)
      | Some url \<Rightarrow>
          if isExpired now url then (Expired, st)
          else if \<not> isPasswordProtected url then (NotProtected, st)
          else if pw \<noteq> password url then (PasswordIncorrect, st)
          else (Verified (originalUrl url), visit url req now st))"

section \<open>Creating and updating links (routes/urls.js)\<close>

text \<open>
  The fields of a request body. The text fields are JSON strings when present. The flag
  \<open>isPasswordProtected\<close> is kept as the JSON value it is, since the route tests it by
  truthiness before the schema casts it.
\<close>

datatype jsValue = JBool bool | JNum int | JStr string

record UrlBody =
  originalUrl_in :: "string option"
  customAlias_in :: "string option"
  expiresAt_in :: "string option"
  isPasswordProtected_in :: "jsValue option"
  password_in :: "string option"

datatype apiError = E_Validation | E_AliasTaken | E_PasswordRequired | E_NotFound | E_Server

text \<open>Truthiness of a JSON value, and of a field that may be absent.\<close>

fun jsTruthy :: "jsValue \<Rightarrow> bool" where
  "jsTruthy (JBool b) = b"
| "jsTruthy (JNum n) = (n \<noteq> 0)"
| "jsTruthy (JStr s) = (s \<noteq> [])"

definition flagTruthy :: "jsValue option \<Rightarrow> bool" where
  "flagTruthy v = (case v of None \<Rightarrow> False | Some x \<Rightarrow> jsTruthy x)"

text \<open>
  The validator \<open>isBoolean()\<close> accepts a value whose text is \<open>true\<close>, \<open>false\<close>, \<open>1\<close>
  or \<open>0\<close>.
\<close>

fun isBoolean :: "jsValue \<Rightarrow> bool" where
  "isBoolean (JBool b) = True"
| "isBoolean (JNum n) = (n = 0 \<or> n = 1)"
| "isBoolean (JStr s) = (s = ''true'' \<or> s = ''false'' \<or> s = ''1'' \<or> s = ''0'')"

text \<open>The schema's cast of a value to \<open>Boolean\<close>; a value it cannot cast is an error.\<close>

fun castBoolean :: "jsValue \<Rightarrow> bool option" where
  "castBoolean (JBool b) = Some b"
| "castBoolean (JNum n) = (if n = 1 then Some True else if n = 0 then Some False else None)"
| "castBoolean (JStr s) =
     (if s = ''true'' \<or> s = ''1'' \<or> s = ''yes'' then Some True
      else if s = ''false'' \<or> s = ''0'' \<or> s = ''no'' then Some False
      else None)"

text \<open>White space, as \<open>String.prototype.trim\<close> and the pattern \<open>\s\<close> take it, in a byte string.\<close>

definition isSpace :: "char \<Rightarrow> bool" where
  "isSpace c =
     (let n = (of_char c :: nat)
      in n = 9 \<or> n = 10 \<or> n = 11 \<or> n = 12 \<or> n = 13 \<or> n = 32 \<or> n = 160)"

text \<open>The schema option \<open>trim: true\<close>.\<close>

definition trim :: "string \<Rightarrow> string" where
  "trim s = rev (dropWhile isSpace (rev (dropWhile isSpace s)))"

text \<open>The pattern \<open>/^[a-zA-Z0-9_-]+$/\<close>.\<close>

definition isAliasChar :: "char \<Rightarrow> bool" where
  "isAliasChar c =
     (let n = (of_char c :: nat)
      in (48 \<le> n \<and> n \<le> 57) \<or> (65 \<le> n \<and> n \<le> 90) \<or> (97 \<le> n \<and> n \<le> 122) \<or> n = 95 \<or> n = 45)"

definition aliasMatches :: "string \<Rightarrow> bool" where
  "aliasMatches a = (a \<noteq> [] \<and> list_all isAliasChar a)"

text \<open>A validation chain that starts with \<open>optional()\<close> accepts an absent field.\<close>

definition optional :: "('a \<Rightarrow> bool) \<Rightarrow> 'a option \<Rightarrow> bool" where
  "optional P v = (case v of None \<Rightarrow> True | Some x \<Rightarrow> P x)"

text \<open>
  The validator \<open>isURL()\<close>. The library refuses the empty text and any text holding white
  space or an angle bracket before it looks further; \<open>isURL\<close> stands for the rest of its
  test.
\<close>

definition urlTest :: "(string \<Rightarrow> bool) \<Rightarrow> string \<Rightarrow> bool" where
  "urlTest isURL u =
     (u \<noteq> [] \<and> list_all (\<lambda>c. \<not> isSpace c \<and> c \<noteq> CHR ''<'' \<and> c \<noteq> CHR ''>'') u \<and> isURL u)"

text \<open>
  The validation chains of the two routes. \<open>isISO8601\<close> is the validator library's test
  of the expiry text; it is a different function from the conversion \<open>new Date\<close> below.
\<close>

definition validCreate :: "(string \<Rightarrow> bool) \<Rightarrow> (string \<Rightarrow> bool) \<Rightarrow> UrlBody \<Rightarrow> bool" where
  "validCreate isURL isISO8601 b =
     ((case originalUrl_in b of None \<Rightarrow> False | Some u \<Rightarrow> urlTest isURL u)
      \<and> optional aliasMatches (customAlias_in b)
      \<and> optional isISO8601 (expiresAt_in b)
      \<and> optional isBoolean (isPasswordProtected_in b)
      \<and> optional (\<lambda>p. p \<noteq> []) (password_in b))"

definition validUpdate :: "(string \<Rightarrow> bool) \<Rightarrow> (string \<Rightarrow> bool) \<Rightarrow> UrlBody \<Rightarrow> bool" where
  "validUpdate isURL isISO8601 b =
     (optional (urlTest isURL) (originalUrl_in b)
      \<and> optional aliasMatches (customAlias_in b)
      \<and> optional isISO8601 (expiresAt_in b)
      \<and> optional isBoolean (isPasswordProtected_in b)
      \<and> optional (\<lambda>p. p \<noteq> []) (password_in b))"

text \<open>
  \<open>expiresAt ? new Date(expiresAt) : null\<close>, then the schema's cast to \<open>Date\<close>.
  \<open>parseDate\<close> stands for \<open>new Date\<close> on a text: the instant it denotes, or nothing
  when the result is an invalid date, which the cast refuses.
\<close>

definition toDate :: "(string \<Rightarrow> instant option) \<Rightarrow> string option \<Rightarrow> dbError + instant option" where
  "toDate parseDate e =
     (case e of
        None \<Rightarrow> Inr None
      | Some s \<Rightarrow>
          if s = [] then Inr None
          else (case parseDate s of None \<Rightarrow> Inl CastError | Some t \<Rightarrow> Inr (Some t)))"

text \<open>The query \<open>{ $or: [{ customAlias }, { shortId: customAlias }] }\<close>.\<close>

definition aliasInUse :: "string \<Rightarrow> Url \<Rightarrow> bool" where
  "aliasInUse a u = (customAlias u = Some a \<or> shortId u = a)"

text \<open>
  \<open>new Url(urlData)\<close>: the document of the route, with the schema's trimming and casts.
  \<open>isPasswordProtected || false\<close> is cast to \<open>Boolean\<close>; the password is kept when the
  flag of the body is truthy.
\<close>

definition newUrl ::
  "(string \<Rightarrow> instant option) \<Rightarrow> UrlBody \<Rightarrow> nat option \<Rightarrow> string \<Rightarrow> nat \<Rightarrow> instant \<Rightarrow> dbError + Url" where
  "newUrl parseDate b user tok oid now =
     (case toDate parseDate (expiresAt_in b) of
        Inl e \<Rightarrow> Inl e
      | Inr expiry \<Rightarrow>
          (case (case isPasswordProtected_in b of
                   None \<Rightarrow> Some False
                 | Some v \<Rightarrow> if jsTruthy v then castBoolean v else Some False) of
             None \<Rightarrow> Inl CastError
           | Some protected \<Rightarrow>
               Inr \<lparr> url_id = oid,
                     originalUrl = trim (or_empty (originalUrl_in b)),
                     shortId = tok,
                     customAlias = map_option trim (customAlias_in b),
                     userId = user,
                     isPasswordProtected = protected,
                     password = (if flagTruthy (isPasswordProtected_in b) then password_in b else None),
                     expiresAt = expiry,
                     isActive = True, clicks = 0, uniqueVisitors = 0,
                     createdAt = now, lastAccessed = None \<rparr>))"

text \<open>
  The validators of the \<open>Url\<close> schema: \<open>originalUrl\<close> and \<open>shortId\<close> are required, the
  alias matches its pattern unless empty, and the password is required of a protected
  link.
\<close>

definition schemaValid :: "Url \<Rightarrow> bool" where
  "schemaValid u =
     (originalUrl u \<noteq> [] \<and> shortId u \<noteq> []
      \<and> (case customAlias u of None \<Rightarrow> True | Some a \<Rightarrow> a = [] \<or> aliasMatches a)
      \<and> (if isPasswordProtected u then truthy (password u) else True))"

text \<open>
  \<open>url.save()\<close>: the document is validated, then inserted; the unique indexes on
  \<open>shortId\<close> and (sparse) on \<open>customAlias\<close> reject a document that repeats a stored
  value.
\<close>

definition save :: "Url \<Rightarrow> Url list \<Rightarrow> dbError + Url list" where
  "save url us =
     (if \<not> schemaValid url then Inl ValidationError
      else if find (\<lambda>u. shortId u = shortId url) us \<noteq> None then Inl DuplicateKey
      else if customAlias url \<noteq> None \<and> find (\<lambda>u. customAlias u = customAlias url) us \<noteq> None
      then Inl DuplicateKey
      else Inr (us @ [url]))"

text \<open>
  \<open>POST /api/urls\<close>. \<open>user\<close> is the authenticated caller if any, \<open>tok\<close> the value
  \<open>nanoid(8)\<close> returns for this document, \<open>oid\<close> its generated identifier and \<open>now\<close>
  the clock reading. \<open>qrCode\<close> stands for \<open>QRCode.toDataURL\<close> on the short address
  that the route builds from the request's protocol and host and the given handle: the
  image, or nothing when the library throws. Every error raised while the document is
  built and saved and the image rendered is caught and answered with status 500; the
  image is rendered after the document is saved. The result is the answer and the
  collection afterwards.
\<close>

definition create_url ::
  "(string \<Rightarrow> bool) \<Rightarrow> (string \<Rightarrow> bool) \<Rightarrow> (string \<Rightarrow> instant option) \<Rightarrow> (string \<Rightarrow> string option)
     \<Rightarrow> UrlBody \<Rightarrow> nat option \<Rightarrow> string \<Rightarrow> nat \<Rightarrow> instant \<Rightarrow> Url list
     \<Rightarrow> (apiError + Url) \<times> Url list" where
  "create_url isURL isISO8601 parseDate qrCode b user tok oid now us =
     (if \<not> validCreate isURL isISO8601 b then (Inl E_Validation, us)
      else if truthy (customAlias_in b)
              \<and> find (aliasInUse (or_empty (customAlias_in b))) us \<noteq> None
      then (Inl E_AliasTaken, us)
      else if flagTruthy (isPasswordProtected_in b) \<and> \<not> truthy (password_in b)
      then (Inl E_PasswordRequired, us)
      else
        (case newUrl parseDate b user tok oid now of
           Inl e \<Rightarrow> (Inl E_Server, us)
         | Inr url \<Rightarrow>
             (case save url us of
                Inl e \<Rightarrow> (Inl E_Server, us)
              | Inr us' \<Rightarrow>
                  (case qrCode (shortUrl url) of
                     None \<Rightarrow> (Inl E_Server, us')
                   | Some qr \<Rightarrow> (Inr url, us')))))"

text \<open>
  The \<open>updateFields\<close> object of \<open>PUT /api/urls/:id\<close>, applied to the stored document;
  \<open>expiry\<close> and \<open>protected\<close> are the expiry and the flag of the body after their casts.
\<close>

definition updateFields :: "UrlBody \<Rightarrow> instant option \<Rightarrow> bool option \<Rightarrow> Url \<Rightarrow> Url" where
  "updateFields b expiry protected u =
     (let u1 = (if truthy (originalUrl_in b)
                then u\<lparr>originalUrl := trim (or_empty (originalUrl_in b))\<rparr> else u);
          u2 = (if customAlias_in b \<noteq> None
                then u1\<lparr>customAlias := map_option trim (customAlias_in b)\<rparr> else u1);
          u3 = (if expiresAt_in b \<noteq> None then u2\<lparr>expiresAt := expiry\<rparr> else u2);
          u4 = (case protected of None \<Rightarrow> u3 | Some p \<Rightarrow> u3\<lparr>isPasswordProtected := p\<rparr>);
          u5 = (if password_in b \<noteq> None then u4\<lparr>password := password_in b\<rparr> else u4)
      in u5)"

text \<open>
  \<open>PUT /api/urls/:id\<close> for the authenticated caller \<open>user\<close>. A cast that fails makes
  \<open>findByIdAndUpdate\<close> throw, which is answered with status 500.
\<close>

definition update_url ::
  "(string \<Rightarrow> bool) \<Rightarrow> (string \<Rightarrow> bool) \<Rightarrow> (string \<Rightarrow> instant option) \<Rightarrow> UrlBody \<Rightarrow> nat \<Rightarrow> nat
     \<Rightarrow> Url list \<Rightarrow> apiError + (Url option \<times> Url list)" where
  "update_url isURL isISO8601 parseDate b i user us =
     (if \<not> validUpdate isURL isISO8601 b then Inl E_Validation
      else case find (\<lambda>u. url_id u = i \<and> userId u = Some user) us of
        None \<Rightarrow> Inl E_NotFound
      | Some existingUrl \<Rightarrow>
          if truthy (customAlias_in b) \<and> customAlias_in b \<noteq> customAlias existingUrl
             \<and> find (\<lambda>u. aliasInUse (or_empty (customAlias_in b)) u \<and> url_id u \<noteq> i) us \<noteq> None
          then Inl E_AliasTaken
          else if flagTruthy (isPasswordProtected_in b) \<and> \<not> truthy (password_in b)
          then Inl E_PasswordRequired
          else
            (case toDate parseDate (expiresAt_in b) of
               Inl e \<Rightarrow> Inl E_Server
             | Inr expiry \<Rightarrow>
                 (case (case isPasswordProtected_in b of
                          None \<Rightarrow> Some None
                        | Some v \<Rightarrow> map_option Some (castBoolean v)) of
                    None \<Rightarrow> Inl E_Server
                  | Some protected \<Rightarrow>
                      (let us' = findByIdAndUpdate i (updateFields b expiry protected) us
                       in Inr (findById i us', us')))))"

text \<open>The invariant of the data model: a password is stored exactly for a protected link.\<close>

definition passwordInvariant :: "Url \<Rightarrow> bool" where
  "passwordInvariant u = (password u \<noteq> None \<longleftrightarrow> isPasswordProtected u)"

section \<open>The time series (routes/analytics.js)\<close>

text \<open>
  Calendar days are taken in UTC, every day lasting \<open>msPerDay\<close> milliseconds. A bucket's
  \<open>date\<close> is the number of its day since the epoch, which \<open>format('YYYY-MM-DD')\<close> renders.
\<close>

definition msPerDay :: int where
  "msPerDay = 86400000"

record Bucket =
  bucket_date :: int
  bucket_clicks :: nat
  bucket_uniqueVisitors :: nat

definition startOfDay :: "instant \<Rightarrow> instant" where
  "startOfDay t = (t div msPerDay) * msPerDay"

definition endOfDay :: "instant \<Rightarrow> instant" where
  "endOfDay t = startOfDay t + msPerDay - 1"

definition dayBucket :: "Analytics list \<Rightarrow> instant \<Rightarrow> Bucket" where
  "dayBucket as current =
     (let dayStart = startOfDay current;
          dayEnd = endOfDay current;
          dayAnalytics = filter (\<lambda>a. dayStart \<le> timestamp a \<and> timestamp a \<le> dayEnd) as
      in \<lparr> bucket_date = current div msPerDay,
           bucket_clicks = length dayAnalytics,
           bucket_uniqueVisitors = length (filter isUnique dayAnalytics) \<rparr>)"

function timeSeriesLoop :: "Analytics list \<Rightarrow> instant \<Rightarrow> instant \<Rightarrow> Bucket list" where
  "timeSeriesLoop as current endDate =
     (if current \<le> endDate
      then dayBucket as current # timeSeriesLoop as (current + msPerDay) endDate
      else [])"
  by pat_completeness auto
termination
  by (relation "measure (\<lambda>(as, current, endDate). nat (endDate - current + 1))")
     (auto simp: msPerDay_def)

declare timeSeriesLoop.simps [simp del]

definition processTimeSeriesData :: "Analytics list \<Rightarrow> instant \<Rightarrow> instant \<Rightarrow> Bucket list" where
  "processTimeSeriesData as startDate endDate = timeSeriesLoop as startDate endDate"

definition periodDays :: "string \<Rightarrow> int" where
  "periodDays period =
     (if period = ''24h'' then 1
      else if period = ''7d'' then 7
      else if period = ''30d'' then 30
      else if period = ''90d'' then 90
      else 7)"

text \<open>
  The time series of \<open>GET /api/analytics/url/:urlId\<close>. The route reads the clock twice:
  \<open>tEnd\<close> for \<open>endDate = moment()\<close>, then \<open>tStart\<close> for the \<open>moment()\<close> from which the
  period is subtracted.
\<close>

definition url_timeSeries ::
  "string \<Rightarrow> instant \<Rightarrow> instant \<Rightarrow> nat \<Rightarrow> Analytics list \<Rightarrow> Bucket list" where
  "url_timeSeries period tEnd tStart lid as =
     (let endDate = tEnd;
          startDate = tStart - periodDays period * msPerDay;
          found = sort_key timestamp
                    (filter (\<lambda>a. urlId a = lid \<and> startDate \<le> timestamp a \<and> timestamp a \<le> endDate) as)
      in processTimeSeriesData found startDate endDate)"

section \<open>Concurrent visits\<close>

text \<open>
  \<open>trackAnalytics\<close> awaits three storage operations, each atomic in the database: the
  \<open>findOne\<close>, the \<open>create\<close> and the increment. Between two of them any other request may
  run. A visit in progress is at one of these points.
\<close>

datatype pc = AtFind | AtCreate bool | AtIncrement | Returned

fun trackStep :: "nat \<Rightarrow> Request \<Rightarrow> string \<Rightarrow> instant \<Rightarrow> pc \<Rightarrow> Store \<Rightarrow> pc \<times> Store" where
  "trackStep lid req vid now AtFind st =
     (AtCreate (find (samePair lid vid) (analytics st) \<noteq> None), st)"
| "trackStep lid req vid now (AtCreate existing) st =
     (case Analytics_create (analyticsData lid req vid now existing) (analytics st) of
        Inl e \<Rightarrow> (Returned, st)
      | Inr as' \<Rightarrow> (if existing then Returned else AtIncrement, st\<lparr>analytics := as'\<rparr>))"
| "trackStep lid req vid now AtIncrement st =
     (Returned, st\<lparr>urls := findByIdAndUpdate lid incUniqueVisitors (urls st)\<rparr>)"
| "trackStep lid req vid now Returned st = (Returned, st)"

text \<open>
  A configuration holds the point each visit has reached and the store. The visits are
  given by their request and clock reading; a schedule names, step by step, the visit
  that performs its next storage operation.
\<close>

definition schedStep ::
  "nat \<Rightarrow> (Request \<times> instant) list \<Rightarrow> pc list \<times> Store \<Rightarrow> nat \<Rightarrow> pc list \<times> Store" where
  "schedStep lid visits cfg i =
     (if i < length (fst cfg) \<and> i < length visits
      then (let r = trackStep lid (fst (visits ! i)) (generateVisitorId (fst (visits ! i)))
                      (snd (visits ! i)) (fst cfg ! i) (snd cfg)
            in ((fst cfg)[i := fst r], snd r))
      else cfg)"

definition runSchedule ::
  "nat \<Rightarrow> (Request \<times> instant) list \<Rightarrow> nat list \<Rightarrow> pc list \<times> Store \<Rightarrow> pc list \<times> Store" where
  "runSchedule lid visits sched cfg = foldl (schedStep lid visits) cfg sched"

text \<open>What the schema requires of the request for its event to be stored.\<close>

definition storable :: "Request \<Rightarrow> bool" where
  "storable req =
     (truthy (js_or (req_ip req) (req_remoteAddress req)) \<and> truthy (hdr_UserAgent req))"

definition pairEvents :: "nat \<Rightarrow> string \<Rightarrow> Store \<Rightarrow> Analytics list" where
  "pairEvents lid vid st = filter (samePair lid vid) (analytics st)"

definition uniqueVisitorsOf :: "nat \<Rightarrow> Store \<Rightarrow> nat option" where
  "uniqueVisitorsOf lid st = map_option uniqueVisitors (findById lid (urls st))"

definition clicksOf :: "nat \<Rightarrow> Store \<Rightarrow> nat option" where
  "clicksOf lid st = map_option clicks (findById lid (urls st))"

text \<open>
  The invariant of a run that starts with no stored event for the pair and \<open>n\<close> unique
  visitors on the link: at most one event of the pair is stored, it is marked unique, and
  the counter has caught up with the stored event except for a visit that has created its
  event and not yet incremented.
\<close>

definition trackInv :: "nat \<Rightarrow> string \<Rightarrow> nat \<Rightarrow> (Request \<times> instant) list \<Rightarrow> pc list \<times> Store \<Rightarrow> bool" where
  "trackInv lid vid n visits cfg =
     (length (fst cfg) = length visits
      \<and> length (pairEvents lid vid (snd cfg)) \<le> 1
      \<and> (\<forall>a \<in> set (pairEvents lid vid (snd cfg)). isUnique a)
      \<and> count_list (fst cfg) AtIncrement \<le> length (pairEvents lid vid (snd cfg))
      \<and> (\<exists>uv. uniqueVisitorsOf lid (snd cfg) = Some uv
               \<and> uv + count_list (fst cfg) AtIncrement = n + length (pairEvents lid vid (snd cfg)))
      \<and> (\<forall>i < length visits. fst cfg ! i = AtCreate True \<longrightarrow> pairEvents lid vid (snd cfg) \<noteq> [])
      \<and> (\<forall>i < length visits. fst cfg ! i = Returned \<and> storable (fst (visits ! i))
             \<longrightarrow> pairEvents lid vid (snd cfg) \<noteq> []))"

text \<open>The responses other than the two successes.\<close>

fun isGateFailure :: "response \<Rightarrow> bool" where
  "isGateFailure (Redirect d) = False"
| "isGateFailure (Verified d) = False"
| "isGateFailure r = True"

section \<open>Sample data\<close>

definition browser :: Request where
  "browser = \<lparr> req_ip = Some ''10.0.0.1'', req_remoteAddress = Some ''10.0.0.1'',
               hdr_UserAgent = Some ''curl'', hdr_AcceptLanguage = Some ''en'',
               hdr_Referrer = None \<rparr>"

definition promo :: Url where
  "promo = \<lparr> url_id = 1, originalUrl = ''https://example.com/a'', shortId = ''abcd1234'',
             customAlias = Some ''promo'', userId = Some 7, isPasswordProtected = False,
             password = None, expiresAt = Some 100, isActive = True, clicks = 0,
             uniqueVisitors = 0, createdAt = 0, lastAccessed = None \<rparr>"

definition locked :: Url where
  "locked = promo\<lparr>isPasswordProtected := True, password := Some ''secret''\<rparr>"

definition shop :: Store where
  "shop = \<lparr> urls = [promo], analytics = [] \<rparr>"

text \<open>A request with no address and no headers, and one whose address is the empty text.\<close>

definition nobody :: Request where
  "nobody = \<lparr> req_ip = None, req_remoteAddress = None, hdr_UserAgent = None,
              hdr_AcceptLanguage = None, hdr_Referrer = None \<rparr>"

definition blank :: Request where
  "blank = \<lparr> req_ip = Some [], req_remoteAddress = Some [], hdr_UserAgent = None,
              hdr_AcceptLanguage = None, hdr_Referrer = None \<rparr>"

text \<open>The sample request without its \<open>User-Agent\<close> header.\<close>

definition headless :: Request where
  "headless = browser\<lparr>hdr_UserAgent := None\<rparr>"

text \<open>The store after one visit of the sample link, and after a second one.\<close>

definition day1 :: Store where
  "day1 = snd (redirect_get ''promo'' None browser 50 shop)"

definition day2 :: Store where
  "day2 = snd (redirect_get ''promo'' None browser 60 day1)"

definition unprotect :: UrlBody where
  "unprotect = \<lparr> originalUrl_in = None, customAlias_in = None, expiresAt_in = None,
                 isPasswordProtected_in = Some (JBool False), password_in = None \<rparr>"

definition newSale :: UrlBody where
  "newSale = \<lparr> originalUrl_in = Some ''https://example.com/sale'', customAlias_in = Some ''sale'',
               expiresAt_in = None, isPasswordProtected_in = None, password_in = None \<rparr>"

text \<open>
  Stand-ins for the two date functions of the libraries at two texts: \<open>2030-01-01\<close>
  is an ISO 8601 date that \<open>new Date\<close> converts, \<open>20231114\<close> is an ISO 8601 date
  (basic format) for which \<open>new Date\<close> yields an invalid date.
\<close>

definition sampleISO :: "string \<Rightarrow> bool" where
  "sampleISO s = (s = ''2030-01-01'' \<or> s = ''20231114'')"

definition sampleDate :: "string \<Rightarrow> instant option" where
  "sampleDate s = (if s = ''2030-01-01'' then Some 1893456000000 else None)"

text \<open>
  A stand-in for the rendering of the QR code at the handles used below: it renders a
  short address and fails on a handle of 3000 characters, more than a QR code holds.
\<close>

definition sampleQR :: "string \<Rightarrow> string option" where
  "sampleQR h = (if length h \<le> 1000 then Some ''data:image/png;base64'' else None)"


text \<open>An event five seconds before the instant 1700000000000, on the same day.\<close>

definition today :: Analytics where
  "today = \<lparr> urlId = 1, visitorId = ''ubx4g3'', ipAddress = Some ''10.0.0.1'', userAgent = ''curl'',
             referrer = None, timestamp = 1700000000000 - 5000, isUnique = True \<rparr>"

section \<open>Properties of resolution\<close>


lemma findOneByHandle_Some:
  "findOneByHandle h us = Some u \<Longrightarrow>
     u \<in> set us \<and> isActive u \<and> (shortId u = h \<or> customAlias u = Some h)"
  by (auto simp: findOneByHandle_def find_Some_iff)

lemma shortUrl_is_handle: "shortId u = shortUrl u \<or> customAlias u = Some (shortUrl u)"
  by (auto simp: shortUrl_def truthy_def or_empty_def split: option.splits)

text \<open>
  C10. A request to either resolution route that is answered with anything but a success
  (not found, expired, a password demanded, missing or wrong, link not protected) leaves
  the whole store as it was: no event, no counter and no access time is written.
\<close>

theorem gate_failure_leaves_store:
  "(isGateFailure (fst (redirect_get h pw req now st)) \<longrightarrow> snd (redirect_get h pw req now st) = st)
   \<and> (isGateFailure (fst (verify_password h pw req now st)) \<longrightarrow> snd (verify_password h pw req now st) = st)"
  by (simp add: redirect_get_def verify_password_def split: option.splits)

theorem gate_failure_leaves_store_witness:
  "isGateFailure (fst (redirect_get ''promo'' None browser 200 shop))
   \<and> snd (redirect_get ''promo'' None browser 200 shop) = shop
   \<and> isGateFailure (fst (verify_password ''promo'' (Some ''x'') browser 50 shop))
   \<and> snd (verify_password ''promo'' (Some ''x'') browser 50 shop) = shop"
  using gate_failure_leaves_store [where h = "''promo''" and pw = None and req = browser and now = 200 and st = shop]
        gate_failure_leaves_store [where h = "''promo''" and pw = "Some ''x''" and req = browser and now = 50 and st = shop]
  by (simp add: redirect_get_def verify_password_def findOneByHandle_def shop_def promo_def isExpired_def truthy_def)




lemma shortUrl_eq:
  "shortUrl u = (case customAlias u of None \<Rightarrow> shortId u | Some a \<Rightarrow> if a = [] then shortId u else a)"
  by (simp add: shortUrl_def truthy_def or_empty_def split: option.splits)






section \<open>The visitor key\<close>

lemma length_digits36: "length digits36 = 36"
  by (simp add: digits36_def)

lemma toString36_digits:
  "0 \<le> n \<Longrightarrow> toString36 n \<noteq> [] \<and> set (toString36 n) \<subseteq> set digits36"
proof (induction n rule: toString36.induct)
  case (1 n)
  show ?case
  proof (cases "n < 36")
    case True
    with "1.prems" have "nat n < length digits36" by (simp add: length_digits36)
    then have "digits36 ! nat n \<in> set digits36" by (rule nth_mem)
    with True "1.prems" show ?thesis by (simp add: toString36.simps [of n])
  next
    case False
    with "1.prems" have ih: "toString36 (n div 36) \<noteq> [] \<and> set (toString36 (n div 36)) \<subseteq> set digits36"
      using "1.IH"(2) by simp
    have "nat (n mod 36) < length digits36" by (simp add: length_digits36 nat_less_iff)
    then have "digits36 ! nat (n mod 36) \<in> set digits36" by (rule nth_mem)
    with False "1.prems" ih show ?thesis by (simp add: toString36.simps [of n])
  qed
qed

lemma generateVisitorId_nonempty: "generateVisitorId req \<noteq> []"
  unfolding generateVisitorId_def Let_def using toString36_digits [of "\<bar>sint (hashString x)\<bar>" for x]
  by simp

lemma browser_key: "generateVisitorId browser = ''ubx4g3''"
  by (simp add: browser_def generateVisitorId_def js_or_def truthy_def or_empty_def
        template_def hashString_def hashStep_def toString36.simps digits36_def)

lemma absent_address_as_text:
  "generateVisitorId (req\<lparr>req_ip := None, req_remoteAddress := None\<rparr>)
     = generateVisitorId (req\<lparr>req_ip := Some ''undefined''\<rparr>)"
  by (simp add: generateVisitorId_def js_or_def truthy_def template_def)

text \<open>
  C7, as stated, fails for the remote address: when both \<open>req.ip\<close> and the socket's
  address are absent the key is that of the text \<open>undefined--\<close>, not that of \<open>--\<close>,
  which empty inputs give.
\<close>

theorem absent_address_counterexample:
  "generateVisitorId nobody = ''k17cpc'' \<and> generateVisitorId blank = ''140''
   \<and> generateVisitorId nobody \<noteq> generateVisitorId blank"
  by (simp add: nobody_def blank_def generateVisitorId_def js_or_def truthy_def or_empty_def
        template_def hashString_def hashStep_def toString36.simps digits36_def)

text \<open>
  C7, amended. The key is a function of the request alone: two requests with the same
  effective address (\<open>req.ip\<close>, else the socket's address) and the same \<open>User-Agent\<close>
  and \<open>Accept-Language\<close> values get the same key, whatever else differs. An absent
  \<open>User-Agent\<close> or \<open>Accept-Language\<close> counts as the empty string. A key is always
  produced: it is never empty and consists of base-36 digits.
\<close>

theorem visitor_key_deterministic:
  "(js_or (req_ip r1) (req_remoteAddress r1) = js_or (req_ip r2) (req_remoteAddress r2)
      \<and> or_empty (hdr_UserAgent r1) = or_empty (hdr_UserAgent r2)
      \<and> or_empty (hdr_AcceptLanguage r1) = or_empty (hdr_AcceptLanguage r2)
      \<longrightarrow> generateVisitorId r1 = generateVisitorId r2)
   \<and> generateVisitorId (req\<lparr>hdr_UserAgent := None\<rparr>) = generateVisitorId (req\<lparr>hdr_UserAgent := Some []\<rparr>)
   \<and> generateVisitorId (req\<lparr>hdr_AcceptLanguage := None\<rparr>)
       = generateVisitorId (req\<lparr>hdr_AcceptLanguage := Some []\<rparr>)
   \<and> generateVisitorId req \<noteq> []
   \<and> set (generateVisitorId req) \<subseteq> set digits36"
proof -
  have "generateVisitorId req \<noteq> [] \<and> set (generateVisitorId req) \<subseteq> set digits36"
    unfolding generateVisitorId_def Let_def by (rule toString36_digits) simp
  then show ?thesis
    by (simp add: generateVisitorId_def js_or_def truthy_def or_empty_def template_def)
qed

theorem visitor_key_deterministic_witness:
  "generateVisitorId (browser\<lparr>hdr_Referrer := Some ''https://a.example''\<rparr>) = generateVisitorId browser
   \<and> generateVisitorId (browser\<lparr>req_remoteAddress := None\<rparr>) = generateVisitorId browser"
  using visitor_key_deterministic [where ?r1.0 = "browser\<lparr>hdr_Referrer := Some ''https://a.example''\<rparr>"
                                     and ?r2.0 = browser]
        visitor_key_deterministic [where ?r1.0 = "browser\<lparr>req_remoteAddress := None\<rparr>"
                                     and ?r2.0 = browser]
  by (simp add: browser_def js_or_def truthy_def)

section \<open>Recording visits\<close>

lemma trackAnalytics_repeat:
  "find (samePair lid vid) (analytics st) \<noteq> None \<Longrightarrow> trackAnalytics lid req vid now st = st"
  by (simp add: trackAnalytics_def Analytics_create_def analyticsData_def Let_def)

lemma first_visit:
  "redirect_get ''promo'' None browser 50 shop =
     (Redirect ''https://example.com/a'',
      \<lparr> urls = [promo\<lparr>clicks := 1, uniqueVisitors := 1, lastAccessed := Some 50\<rparr>],
        analytics = [\<lparr> urlId = 1, visitorId = ''ubx4g3'', ipAddress = Some ''10.0.0.1'',
                       userAgent = ''curl'', referrer = None, timestamp = 50, isUnique = True \<rparr>] \<rparr>)"
  by (simp add: redirect_get_def findOneByHandle_def shop_def promo_def isExpired_def visit_def
        browser_key trackAnalytics_def Analytics_create_def analyticsData_def requiredOk_def
        samePair_def findByIdAndUpdate_def incUniqueVisitors_def recordClick_def Let_def)
     (simp add: browser_def js_or_def truthy_def or_empty_def or_null_def)

lemma second_visit:
  "redirect_get ''promo'' None browser 60
      \<lparr> urls = [promo\<lparr>clicks := 1, uniqueVisitors := 1, lastAccessed := Some 50\<rparr>],
        analytics = [\<lparr> urlId = 1, visitorId = ''ubx4g3'', ipAddress = Some ''10.0.0.1'',
                       userAgent = ''curl'', referrer = None, timestamp = 50, isUnique = True \<rparr>] \<rparr> =
     (Redirect ''https://example.com/a'',
      \<lparr> urls = [promo\<lparr>clicks := 2, uniqueVisitors := 1, lastAccessed := Some 60\<rparr>],
        analytics = [\<lparr> urlId = 1, visitorId = ''ubx4g3'', ipAddress = Some ''10.0.0.1'',
                       userAgent = ''curl'', referrer = None, timestamp = 50, isUnique = True \<rparr>] \<rparr>)"
  by (simp add: redirect_get_def findOneByHandle_def shop_def promo_def isExpired_def visit_def
        browser_key trackAnalytics_def Analytics_create_def analyticsData_def requiredOk_def
        samePair_def findByIdAndUpdate_def incUniqueVisitors_def recordClick_def Let_def)

lemma day1_eq:
  "day1 = \<lparr> urls = [promo\<lparr>clicks := 1, uniqueVisitors := 1, lastAccessed := Some 50\<rparr>],
             analytics = [\<lparr> urlId = 1, visitorId = ''ubx4g3'', ipAddress = Some ''10.0.0.1'',
                            userAgent = ''curl'', referrer = None, timestamp = 50, isUnique = True \<rparr>] \<rparr>"
  unfolding day1_def first_visit by (rule snd_conv)

lemma day2_eq:
  "day2 = \<lparr> urls = [promo\<lparr>clicks := 2, uniqueVisitors := 1, lastAccessed := Some 60\<rparr>],
             analytics = [\<lparr> urlId = 1, visitorId = ''ubx4g3'', ipAddress = Some ''10.0.0.1'',
                            userAgent = ''curl'', referrer = None, timestamp = 50, isUnique = True \<rparr>] \<rparr>"
  unfolding day2_def day1_eq second_visit by (rule snd_conv)

text \<open>
  C1, at a failing input: the sample visitor resolves the sample link a second time. The
  resolution succeeds, an event of this visitor for this link is already stored, and the
  second visit stores none: the unique index on \<open>(urlId, visitorId)\<close> rejects it and
  \<open>trackAnalytics\<close> swallows the error.
\<close>

theorem repeat_visit_drops_event:
  "fst (redirect_get ''promo'' None browser 60 day1) = Redirect ''https://example.com/a''
   \<and> find (samePair 1 (generateVisitorId browser)) (analytics day1) \<noteq> None
   \<and> length (analytics day1) = 1
   \<and> analytics day2 = analytics day1"
proof -
  have "fst (redirect_get ''promo'' None browser 60 day1) = Redirect ''https://example.com/a''"
    unfolding day1_eq second_visit by (rule fst_conv)
  moreover have "find (samePair 1 (generateVisitorId browser)) (analytics day1) \<noteq> None"
    by (simp add: day1_eq browser_key samePair_def)
  moreover have "length (analytics day1) = 1" "analytics day2 = analytics day1"
    by (simp_all add: day1_eq day2_eq)
  ultimately show ?thesis by blast
qed

text \<open>
  C3, at its own scenario: two resolutions of the sample link from identical request
  attributes both succeed; the link ends with one unique visitor and two clicks, but a
  single event is stored, marked unique, after the first visit and after the second.
\<close>

theorem two_visits_one_event:
  "fst (redirect_get ''promo'' None browser 50 shop) = Redirect ''https://example.com/a''
   \<and> fst (redirect_get ''promo'' None browser 60 day1) = Redirect ''https://example.com/a''
   \<and> map isUnique (analytics day1) = [True]
   \<and> map isUnique (analytics day2) = [True]
   \<and> uniqueVisitorsOf 1 day2 = Some 1
   \<and> clicksOf 1 day2 = Some 2"
proof -
  have "fst (redirect_get ''promo'' None browser 50 shop) = Redirect ''https://example.com/a''"
    unfolding first_visit by (rule fst_conv)
  moreover have "fst (redirect_get ''promo'' None browser 60 day1) = Redirect ''https://example.com/a''"
    unfolding day1_eq second_visit by (rule fst_conv)
  moreover have "map isUnique (analytics day1) = [True]"
    by (simp add: day1_eq)
  moreover have "map isUnique (analytics day2) = [True]"
    by (simp add: day2_eq)
  moreover have "uniqueVisitorsOf 1 day2 = Some 1" "clicksOf 1 day2 = Some 2"
    by (simp_all add: day2_eq uniqueVisitorsOf_def clicksOf_def findById_def promo_def)
  ultimately show ?thesis by blast
qed

section \<open>Creating and updating links\<close>

text \<open>
  C4, at a failing input: the owner's update \<open>{ isPasswordProtected: false }\<close> of a
  protected link that satisfies the invariant succeeds and leaves the password stored,
  so the updated link violates the invariant.
\<close>

theorem update_keeps_password:
  "passwordInvariant locked
   \<and> update_url (\<lambda>s. True) sampleISO sampleDate unprotect 1 7 [locked]
       = Inr (Some (locked\<lparr>isPasswordProtected := False\<rparr>), [locked\<lparr>isPasswordProtected := False\<rparr>])
   \<and> password (locked\<lparr>isPasswordProtected := False\<rparr>) = Some ''secret''
   \<and> \<not> passwordInvariant (locked\<lparr>isPasswordProtected := False\<rparr>)"
  by (simp add: update_url_def validUpdate_def optional_def unprotect_def locked_def promo_def
        truthy_def flagTruthy_def toDate_def findByIdAndUpdate_def findById_def updateFields_def
        passwordInvariant_def Let_def)

lemma dropWhile_none: "list_all (\<lambda>c. \<not> P c) s \<Longrightarrow> dropWhile P s = s"
  by (cases s) simp_all

lemma trim_no_space: "list_all (\<lambda>c. \<not> isSpace c) s \<Longrightarrow> trim s = s"
proof -
  assume n: "list_all (\<lambda>c. \<not> isSpace c) s"
  then have "list_all (\<lambda>c. \<not> isSpace c) (rev s)" by (simp add: list_all_iff)
  then have "dropWhile isSpace (rev s) = rev s" by (rule dropWhile_none)
  with dropWhile_none [OF n] show ?thesis by (simp add: trim_def)
qed

lemma alias_no_space: "aliasMatches a \<Longrightarrow> list_all (\<lambda>c. \<not> isSpace c) a"
  by (auto simp: aliasMatches_def list_all_iff isAliasChar_def isSpace_def Let_def)

lemma url_no_space: "urlTest isURL u \<Longrightarrow> u \<noteq> [] \<and> list_all (\<lambda>c. \<not> isSpace c) u"
  by (auto simp: urlTest_def list_all_iff)

lemma isBoolean_cast: "isBoolean v \<Longrightarrow> castBoolean v \<noteq> None"
  by (cases v) auto

lemma isBoolean_truthy: "isBoolean v \<Longrightarrow> jsTruthy v = (v \<noteq> JBool False \<and> v \<noteq> JNum 0)"
  by (cases v) auto

lemma create_url_passwordInvariant:
  "create_url isURL isISO8601 parseDate qrCode b user tok oid now us = (Inr url, us')
   \<Longrightarrow> isPasswordProtected_in b = None \<or> (\<exists>p. isPasswordProtected_in b = Some (JBool p))
   \<Longrightarrow> passwordInvariant url"
  by (auto simp: create_url_def newUrl_def passwordInvariant_def validCreate_def optional_def
        truthy_def flagTruthy_def Let_def
        split: if_splits sum.splits option.splits)

lemma create_text_flag_keeps_password:
  "\<exists>url. create_url (\<lambda>s. True) sampleISO sampleDate sampleQR
            (newSale\<lparr>isPasswordProtected_in := Some (JStr ''false''), password_in := Some ''secret''\<rparr>)
            None ''zyxw9876'' 2 10 [promo] = (Inr url, [promo, url])
         \<and> \<not> isPasswordProtected url \<and> password url = Some ''secret''"
  by (simp add: create_url_def validCreate_def urlTest_def optional_def newSale_def aliasMatches_def
        isAliasChar_def isSpace_def truthy_def flagTruthy_def or_empty_def aliasInUse_def
        newUrl_def toDate_def trim_def save_def schemaValid_def promo_def shortUrl_def
        sampleQR_def Let_def)

lemma update_url_needs_password:
  "validUpdate isURL isISO8601 b \<Longrightarrow> find (\<lambda>u. url_id u = i \<and> userId u = Some user) us = Some e
   \<Longrightarrow> flagTruthy (isPasswordProtected_in b) \<Longrightarrow> password_in b = None
   \<Longrightarrow> customAlias_in b = None
   \<Longrightarrow> update_url isURL isISO8601 parseDate b i user us = Inl E_PasswordRequired"
  by (simp add: update_url_def truthy_def)

text \<open>
  C6, as stated, fails: a valid request whose alias is free is answered with a server
  error when the token generated for it is already the token of a stored link, when its
  expiry text passes \<open>isISO8601\<close> but \<open>new Date\<close> makes an invalid date of it, and
  when the QR code of its short address cannot be rendered (the link is then stored all
  the same).
\<close>

theorem create_token_collision_counterexample:
  "validCreate (\<lambda>s. True) sampleISO newSale
   \<and> customAlias promo \<noteq> Some ''sale'' \<and> shortId promo \<noteq> ''sale'' \<and> shortId promo = ''abcd1234''
   \<and> create_url (\<lambda>s. True) sampleISO sampleDate sampleQR newSale None ''abcd1234'' 2 10 [promo]
       = (Inl E_Server, [promo])
   \<and> validCreate (\<lambda>s. True) sampleISO (newSale\<lparr>expiresAt_in := Some ''20231114''\<rparr>)
   \<and> sampleDate ''20231114'' = None
   \<and> create_url (\<lambda>s. True) sampleISO sampleDate sampleQR
        (newSale\<lparr>expiresAt_in := Some ''20231114''\<rparr>) None ''zyxw9876'' 2 10 [promo]
       = (Inl E_Server, [promo])
   \<and> validCreate (\<lambda>s. True) sampleISO (newSale\<lparr>customAlias_in := Some (replicate 3000 CHR ''a'')\<rparr>)
   \<and> sampleQR (replicate 3000 CHR ''a'') = None
   \<and> create_url (\<lambda>s. True) sampleISO sampleDate sampleQR
        (newSale\<lparr>customAlias_in := Some (replicate 3000 CHR ''a'')\<rparr>) None ''zyxw9876'' 2 10 [promo]
       = (Inl E_Server,
          [promo,
           \<lparr> url_id = 2, originalUrl = ''https://example.com/sale'', shortId = ''zyxw9876'',
             customAlias = Some (replicate 3000 CHR ''a''), userId = None,
             isPasswordProtected = False, password = None, expiresAt = None, isActive = True,
             clicks = 0, uniqueVisitors = 0, createdAt = 10, lastAccessed = None \<rparr>])"
proof -
  let ?long = "replicate 3000 CHR ''a''"
  have v1: "validCreate (\<lambda>s. True) sampleISO newSale"
    and v2: "validCreate (\<lambda>s. True) sampleISO (newSale\<lparr>expiresAt_in := Some ''20231114''\<rparr>)"
    by (simp_all add: validCreate_def urlTest_def optional_def newSale_def aliasMatches_def
          isAliasChar_def isSpace_def sampleISO_def)
  have am: "aliasMatches ?long"
    by (simp add: aliasMatches_def list_all_iff isAliasChar_def)
  then have v3: "validCreate (\<lambda>s. True) sampleISO (newSale\<lparr>customAlias_in := Some ?long\<rparr>)"
    by (simp add: validCreate_def urlTest_def optional_def newSale_def isSpace_def)
  have free: "customAlias promo \<noteq> Some ''sale''" "shortId promo \<noteq> ''sale''"
      "shortId promo = ''abcd1234''" "sampleDate ''20231114'' = None" "sampleQR ?long = None"
    by (simp_all add: promo_def sampleDate_def sampleQR_def)
  have tu: "trim ''https://example.com/sale'' = ''https://example.com/sale''"
      "trim ''sale'' = ''sale''"
    by (simp_all add: trim_def isSpace_def)
  have c1: "create_url (\<lambda>s. True) sampleISO sampleDate sampleQR newSale None ''abcd1234'' 2 10
              [promo] = (Inl E_Server, [promo])"
    using v1 tu
    by (simp add: create_url_def newSale_def truthy_def flagTruthy_def or_empty_def aliasInUse_def
          newUrl_def toDate_def save_def schemaValid_def aliasMatches_def isAliasChar_def promo_def)
  have c2: "create_url (\<lambda>s. True) sampleISO sampleDate sampleQR
              (newSale\<lparr>expiresAt_in := Some ''20231114''\<rparr>) None ''zyxw9876'' 2 10 [promo]
              = (Inl E_Server, [promo])"
    using v2
    by (simp add: create_url_def newSale_def truthy_def flagTruthy_def or_empty_def aliasInUse_def
          newUrl_def toDate_def sampleDate_def promo_def)
  have tl: "trim ?long = ?long"
    using trim_no_space [OF alias_no_space [OF am]] .
  have ne: "?long \<noteq> []" by simp
  have nf: "find (aliasInUse ?long) [promo] = None"
    by (auto simp: aliasInUse_def promo_def dest: arg_cong [where f = length])
  have nf2: "find (\<lambda>u. customAlias u = Some ?long) [promo] = None"
    by (auto simp: promo_def dest: arg_cong [where f = length])
  have nf3: "find (\<lambda>u. shortId u = ''zyxw9876'') [promo] = None"
    by (simp add: promo_def)
  have c3: "create_url (\<lambda>s. True) sampleISO sampleDate sampleQR
              (newSale\<lparr>customAlias_in := Some ?long\<rparr>) None ''zyxw9876'' 2 10 [promo]
              = (Inl E_Server,
                 [promo,
                  \<lparr> url_id = 2, originalUrl = ''https://example.com/sale'', shortId = ''zyxw9876'',
                    customAlias = Some ?long, userId = None,
                    isPasswordProtected = False, password = None, expiresAt = None, isActive = True,
                    clicks = 0, uniqueVisitors = 0, createdAt = 10, lastAccessed = None \<rparr>])"
    using v3 nf nf2 nf3 tl tu ne am free
    by (simp add: create_url_def truthy_def or_empty_def flagTruthy_def newSale_def newUrl_def
          toDate_def save_def schemaValid_def shortUrl_def)
  from v1 v2 v3 free c1 c2 c3 show ?thesis by blast
qed

lemma find_aliasInUse:
  "find (aliasInUse a) us \<noteq> None \<longleftrightarrow> (\<exists>u \<in> set us. customAlias u = Some a \<or> shortId u = a)"
  by (auto simp: find_None_iff aliasInUse_def)

lemma create_url_valid_alias:
  assumes v: "validCreate isURL isISO8601 b" and a: "customAlias_in b = Some a"
  shows "(fst (create_url isURL isISO8601 parseDate qrCode b user tok oid now us) = Inl E_AliasTaken
            \<longleftrightarrow> (\<exists>u \<in> set us. customAlias u = Some a \<or> shortId u = a))
         \<and> (\<not> (\<exists>u \<in> set us. customAlias u = Some a \<or> shortId u = a)
              \<and> (isPasswordProtected_in b = None \<or> isPasswordProtected_in b = Some (JBool False)
                   \<or> isPasswordProtected_in b = Some (JNum 0) \<or> password_in b \<noteq> None)
              \<and> (\<forall>s. expiresAt_in b = Some s \<and> s \<noteq> [] \<longrightarrow> parseDate s \<noteq> None)
              \<and> length tok = 8 \<and> (\<forall>u \<in> set us. shortId u \<noteq> tok)
              \<and> qrCode a \<noteq> None
            \<longrightarrow> (\<exists>url. create_url isURL isISO8601 parseDate qrCode b user tok oid now us
                         = (Inr url, us @ [url])
                       \<and> customAlias url = Some a \<and> shortId url = tok
                       \<and> originalUrl url = or_empty (originalUrl_in b)
                       \<and> isActive url \<and> clicks url = 0 \<and> uniqueVisitors url = 0))"
proof -
  from v a have am: "aliasMatches a" by (simp add: validCreate_def optional_def)
  then have ne: "a \<noteq> []" and ta: "trim a = a"
    by (simp_all add: aliasMatches_def trim_no_space [OF alias_no_space])
  from ne a have t: "truthy (customAlias_in b)" "or_empty (customAlias_in b) = a"
    by (simp_all add: truthy_def or_empty_def)
  from v have pw: "password_in b \<noteq> None \<Longrightarrow> truthy (password_in b)"
    by (auto simp: validCreate_def optional_def truthy_def)
  from v obtain u where u: "originalUrl_in b = Some u" "urlTest isURL u"
    by (auto simp: validCreate_def split: option.splits)
  from url_no_space [OF u(2)] have tu: "trim u = u" "u \<noteq> []"
    by (simp_all add: trim_no_space)
  show ?thesis
  proof (cases "\<exists>u \<in> set us. customAlias u = Some a \<or> shortId u = a")
    case True
    then have "find (aliasInUse a) us \<noteq> None" by (simp only: find_aliasInUse)
    with v t True show ?thesis by (simp add: create_url_def)
  next
    case False
    then have nf: "find (aliasInUse a) us = None" using find_aliasInUse [of a us] by blast
    have notTaken: "fst (create_url isURL isISO8601 parseDate qrCode b user tok oid now us)
                      \<noteq> Inl E_AliasTaken"
      using v t nf by (simp add: create_url_def split: sum.splits option.splits)
    have ok: "\<exists>url. create_url isURL isISO8601 parseDate qrCode b user tok oid now us
                         = (Inr url, us @ [url])
                       \<and> customAlias url = Some a \<and> shortId url = tok
                       \<and> originalUrl url = or_empty (originalUrl_in b)
                       \<and> isActive url \<and> clicks url = 0 \<and> uniqueVisitors url = 0"
      if p: "isPasswordProtected_in b = None \<or> isPasswordProtected_in b = Some (JBool False)
               \<or> isPasswordProtected_in b = Some (JNum 0) \<or> password_in b \<noteq> None"
        and d: "\<forall>s. expiresAt_in b = Some s \<and> s \<noteq> [] \<longrightarrow> parseDate s \<noteq> None"
        and tk: "length tok = 8"
        and fresh: "\<forall>u \<in> set us. shortId u \<noteq> tok"
        and qr: "qrCode a \<noteq> None"
    proof -
      from p pw have g: "\<not> (flagTruthy (isPasswordProtected_in b) \<and> \<not> truthy (password_in b))"
        by (auto simp: flagTruthy_def)
      from d have "\<exists>expiry. toDate parseDate (expiresAt_in b) = Inr expiry"
        by (cases "expiresAt_in b") (auto simp: toDate_def split: option.splits)
      then obtain expiry where ex: "toDate parseDate (expiresAt_in b) = Inr expiry" ..
      from v have "\<exists>protected. (case isPasswordProtected_in b of None \<Rightarrow> Some False
              | Some x \<Rightarrow> if jsTruthy x then castBoolean x else Some False) = Some protected"
        using isBoolean_cast by (cases "isPasswordProtected_in b") (auto simp: validCreate_def optional_def)
      then obtain protected where
        pr: "(case isPasswordProtected_in b of None \<Rightarrow> Some False
              | Some x \<Rightarrow> if jsTruthy x then castBoolean x else Some False) = Some protected" ..
      define url where "url =
        \<lparr> url_id = oid, originalUrl = u, shortId = tok, customAlias = Some a, userId = user,
          isPasswordProtected = protected,
          password = (if flagTruthy (isPasswordProtected_in b) then password_in b else None),
          expiresAt = expiry, isActive = True, clicks = 0, uniqueVisitors = 0,
          createdAt = now, lastAccessed = None \<rparr>"
      have nu: "newUrl parseDate b user tok oid now = Inr url"
        using ex pr u a ta tu by (simp add: newUrl_def url_def or_empty_def)
      have prot: "protected \<Longrightarrow> flagTruthy (isPasswordProtected_in b)"
        using pr by (cases "isPasswordProtected_in b") (auto simp: flagTruthy_def split: if_splits)
      from tk have tne: "tok \<noteq> []" by auto
      have sv: "schemaValid url"
        using tu tne am prot g by (auto simp: schemaValid_def url_def)
      from fresh have s1: "find (\<lambda>u. shortId u = tok) us = None"
        by (simp add: find_None_iff)
      from False have s2: "find (\<lambda>u. customAlias u = Some a) us = None"
        by (auto simp: find_None_iff)
      have sa: "save url us = Inr (us @ [url])"
        using sv s1 s2 by (simp add: save_def url_def)
      from ne have su: "shortUrl url = a"
        by (simp add: shortUrl_eq url_def)
      from qr obtain img where "qrCode (shortUrl url) = Some img"
        using su by auto
      with nu sa v t nf g
      have "create_url isURL isISO8601 parseDate qrCode b user tok oid now us = (Inr url, us @ [url])"
        by (simp add: create_url_def)
      moreover have "customAlias url = Some a \<and> shortId url = tok
                       \<and> originalUrl url = or_empty (originalUrl_in b)
                       \<and> isActive url \<and> clicks url = 0 \<and> uniqueVisitors url = 0"
        using u by (simp add: url_def or_empty_def)
      ultimately show ?thesis by blast
    qed
    from False notTaken ok show ?thesis by blast
  qed
qed

lemma aliasChars: "set a \<subseteq> set ''abcdefghijklmnopqrstuvwxyzABCDEFGHIJKLMNOPQRSTUVWXYZ0123456789_-''
  \<Longrightarrow> list_all isAliasChar a"
proof -
  have "list_all isAliasChar ''abcdefghijklmnopqrstuvwxyzABCDEFGHIJKLMNOPQRSTUVWXYZ0123456789_-''"
    by (simp add: isAliasChar_def)
  then show "set a \<subseteq> set ''abcdefghijklmnopqrstuvwxyzABCDEFGHIJKLMNOPQRSTUVWXYZ0123456789_-''
      \<Longrightarrow> list_all isAliasChar a"
    unfolding list_all_iff by blast
qed

lemma char_by_code: "of_char c = (of_char d :: nat) \<Longrightarrow> c = d"
  by (simp only: of_char_eq_iff)

lemma isSpace_chars:
  "isSpace c \<Longrightarrow> c \<in> set [CHR 0x09, CHR 0x0A, CHR 0x0B, CHR 0x0C, CHR 0x0D, CHR 0x20, CHR 0xA0]"
proof -
  assume "isSpace c"
  then consider "of_char c = (9::nat)" | "of_char c = (10::nat)" | "of_char c = (11::nat)"
    | "of_char c = (12::nat)" | "of_char c = (13::nat)" | "of_char c = (32::nat)"
    | "of_char c = (160::nat)"
    by (auto simp: isSpace_def Let_def)
  then show ?thesis
  proof cases
    case 1
    then have "c = CHR 0x09" by (intro char_by_code) simp
    then show ?thesis by simp
  next
    case 2
    then have "c = CHR 0x0A" by (intro char_by_code) simp
    then show ?thesis by simp
  next
    case 3
    then have "c = CHR 0x0B" by (intro char_by_code) simp
    then show ?thesis by simp
  next
    case 4
    then have "c = CHR 0x0C" by (intro char_by_code) simp
    then show ?thesis by simp
  next
    case 5
    then have "c = CHR 0x0D" by (intro char_by_code) simp
    then show ?thesis by simp
  next
    case 6
    then have "c = CHR 0x20" by (intro char_by_code) simp
    then show ?thesis by simp
  next
    case 7
    then have "c = CHR 0xA0" by (intro char_by_code) simp
    then show ?thesis by simp
  qed
qed

text \<open>
  C6, amended. For a request that passes validation and carries an alias, creation fails
  with \<open>AliasTaken\<close> exactly when a stored link has that alias or has it as its token.
  When none has, a password comes with a request for protection (a flag other than
  \<open>false\<close> or \<open>0\<close>), the expiry text, if any, is one that \<open>new Date\<close> converts, the
  generated eight-character token is no stored link's token, and the QR code of the
  alias's short address can be rendered, creation succeeds: the new link, active and
  with no clicks, with the alias, the token and the destination of the request, is
  appended to the collection.
\<close>

theorem create_alias_taken:
  assumes hd: "originalUrl_in b = Some u" "u \<noteq> []" "isURL u"
      "\<forall>c \<in> set u. c \<notin> set [CHR 0x09, CHR 0x0A, CHR 0x0B, CHR 0x0C, CHR 0x0D, CHR 0x20, CHR 0xA0,
                              CHR ''<'', CHR ''>'']"
    and ha: "customAlias_in b = Some a" "a \<noteq> []"
      "set a \<subseteq> set ''abcdefghijklmnopqrstuvwxyzABCDEFGHIJKLMNOPQRSTUVWXYZ0123456789_-''"
    and he: "expiresAt_in b = None \<or> (\<exists>s. expiresAt_in b = Some s \<and> isISO8601 s)"
    and hf: "isPasswordProtected_in b \<in>
                 {None, Some (JBool True), Some (JBool False), Some (JNum 1), Some (JNum 0),
                  Some (JStr ''true''), Some (JStr ''false''), Some (JStr ''1''), Some (JStr ''0'')}"
    and hp: "password_in b \<noteq> Some []"
  shows "(fst (create_url isURL isISO8601 parseDate qrCode b user tok oid now us) = Inl E_AliasTaken
            \<longleftrightarrow> (\<exists>v \<in> set us. customAlias v = Some a \<or> shortId v = a))
         \<and> (\<not> (\<exists>v \<in> set us. customAlias v = Some a \<or> shortId v = a)
              \<and> (isPasswordProtected_in b = None \<or> isPasswordProtected_in b = Some (JBool False)
                   \<or> isPasswordProtected_in b = Some (JNum 0) \<or> password_in b \<noteq> None)
              \<and> (\<forall>s. expiresAt_in b = Some s \<and> s \<noteq> [] \<longrightarrow> parseDate s \<noteq> None)
              \<and> length tok = 8 \<and> (\<forall>v \<in> set us. shortId v \<noteq> tok)
              \<and> qrCode a \<noteq> None
            \<longrightarrow> (\<exists>url. create_url isURL isISO8601 parseDate qrCode b user tok oid now us
                         = (Inr url, us @ [url])
                       \<and> customAlias url = Some a \<and> shortId url = tok \<and> originalUrl url = u
                       \<and> isActive url \<and> clicks url = 0 \<and> uniqueVisitors url = 0))"
proof -
  from hd(4) have "list_all (\<lambda>c. \<not> isSpace c \<and> c \<noteq> CHR ''<'' \<and> c \<noteq> CHR ''>'') u"
    unfolding list_all_iff using isSpace_chars by fastforce
  with hd have d: "urlTest isURL u" by (simp add: urlTest_def)
  from ha have al: "aliasMatches a" by (simp add: aliasMatches_def aliasChars)
  from he have e: "optional isISO8601 (expiresAt_in b)" by (auto simp: optional_def)
  from hf have f: "optional isBoolean (isPasswordProtected_in b)" by (auto simp: optional_def)
  from hp have p: "optional (\<lambda>p. p \<noteq> []) (password_in b)"
    by (cases "password_in b") (simp_all add: optional_def)
  from d al e f p hd(1) ha(1) have v: "validCreate isURL isISO8601 b"
    by (simp add: validCreate_def optional_def)
  from hd(1) have "or_empty (originalUrl_in b) = u" by (simp add: or_empty_def)
  with create_url_valid_alias [OF v ha(1), of parseDate qrCode user tok oid now us]
  show ?thesis by simp
qed

theorem create_alias_taken_witness:
  "fst (create_url (\<lambda>s. True) sampleISO sampleDate sampleQR (newSale\<lparr>expiresAt_in := Some ''2030-01-01''\<rparr>)
          None ''zyxw9876'' 2 10 [promo]) \<noteq> Inl E_AliasTaken
   \<and> (\<exists>url. create_url (\<lambda>s. True) sampleISO sampleDate sampleQR
               (newSale\<lparr>expiresAt_in := Some ''2030-01-01''\<rparr>) None ''zyxw9876'' 2 10 [promo]
               = (Inr url, [promo] @ [url])
             \<and> customAlias url = Some ''sale'' \<and> shortId url = ''zyxw9876''
             \<and> originalUrl url = ''https://example.com/sale'')
   \<and> fst (create_url (\<lambda>s. True) sampleISO sampleDate sampleQR
             (newSale\<lparr>customAlias_in := Some ''abcd1234''\<rparr>) None ''zyxw9876'' 2 10 [promo])
       = Inl E_AliasTaken"
proof -
  let ?b = "newSale\<lparr>expiresAt_in := Some ''2030-01-01''\<rparr>"
  let ?b' = "newSale\<lparr>customAlias_in := Some ''abcd1234''\<rparr>"
  let ?u = "''https://example.com/sale''"
  have d: "originalUrl_in ?b = Some ?u" "originalUrl_in ?b' = Some ?u" "?u \<noteq> []" "(\<lambda>s. True) ?u"
      "\<forall>c \<in> set ?u. c \<notin> set [CHR 0x09, CHR 0x0A, CHR 0x0B, CHR 0x0C, CHR 0x0D, CHR 0x20, CHR 0xA0,
                               CHR ''<'', CHR ''>'']"
    by (simp_all add: newSale_def)
  have a: "customAlias_in ?b = Some ''sale''" "''sale'' \<noteq> []"
      "set ''sale'' \<subseteq> set ''abcdefghijklmnopqrstuvwxyzABCDEFGHIJKLMNOPQRSTUVWXYZ0123456789_-''"
    by (simp_all add: newSale_def)
  have a': "customAlias_in ?b' = Some ''abcd1234''" "''abcd1234'' \<noteq> []"
      "set ''abcd1234'' \<subseteq> set ''abcdefghijklmnopqrstuvwxyzABCDEFGHIJKLMNOPQRSTUVWXYZ0123456789_-''"
    by simp_all
  have e: "expiresAt_in ?b = None \<or> (\<exists>s. expiresAt_in ?b = Some s \<and> sampleISO s)"
      "expiresAt_in ?b' = None \<or> (\<exists>s. expiresAt_in ?b' = Some s \<and> sampleISO s)"
    by (simp_all add: newSale_def sampleISO_def)
  have f: "isPasswordProtected_in ?b \<in>
             {None, Some (JBool True), Some (JBool False), Some (JNum 1), Some (JNum 0),
              Some (JStr ''true''), Some (JStr ''false''), Some (JStr ''1''), Some (JStr ''0'')}"
      "isPasswordProtected_in ?b' \<in>
             {None, Some (JBool True), Some (JBool False), Some (JNum 1), Some (JNum 0),
              Some (JStr ''true''), Some (JStr ''false''), Some (JStr ''1''), Some (JStr ''0'')}"
    by (simp_all add: newSale_def)
  have p: "password_in ?b \<noteq> Some []" "password_in ?b' \<noteq> Some []"
    by (simp_all add: newSale_def)
  have h: "isPasswordProtected_in ?b = None" "expiresAt_in ?b = Some ''2030-01-01''"
      "sampleDate ''2030-01-01'' \<noteq> None" "sampleQR ''sale'' \<noteq> None" "length ''zyxw9876'' = 8"
    by (simp_all add: newSale_def sampleDate_def sampleQR_def)
  have free: "\<not> (\<exists>v \<in> set [promo]. customAlias v = Some ''sale'' \<or> shortId v = ''sale'')"
      "\<forall>v \<in> set [promo]. shortId v \<noteq> ''zyxw9876''"
      "\<exists>v \<in> set [promo]. customAlias v = Some ''abcd1234'' \<or> shortId v = ''abcd1234''"
    by (simp_all add: promo_def)
  have one: "fst (create_url (\<lambda>s. True) sampleISO sampleDate sampleQR ?b None ''zyxw9876'' 2 10 [promo])
               \<noteq> Inl E_AliasTaken
             \<and> (\<exists>url. create_url (\<lambda>s. True) sampleISO sampleDate sampleQR ?b None ''zyxw9876'' 2 10 [promo]
                         = (Inr url, [promo] @ [url])
                       \<and> customAlias url = Some ''sale'' \<and> shortId url = ''zyxw9876''
                       \<and> originalUrl url = ?u)"
    using create_alias_taken [OF d(1) d(3) d(4) d(5) a e(1) f(1) p(1), where us = "[promo]"
                                and tok = "''zyxw9876''" and user = None and oid = 2 and now = 10
                                and parseDate = sampleDate and qrCode = sampleQR]
          h free(1,2)
    by auto
  have two: "fst (create_url (\<lambda>s. True) sampleISO sampleDate sampleQR ?b' None ''zyxw9876'' 2 10 [promo])
               = Inl E_AliasTaken"
    using create_alias_taken [OF d(2) d(3) d(4) d(5) a' e(2) f(2) p(2), where us = "[promo]"
                                and tok = "''zyxw9876''" and user = None and oid = 2 and now = 10
                                and parseDate = sampleDate and qrCode = sampleQR]
          free(3)
    by blast
  from one two show ?thesis by blast
qed

section \<open>The time series\<close>

text \<open>
  What the loop computes in general: consecutive days from the day of \<open>startDate\<close>, one
  for every whole day that fits between \<open>startDate\<close> and \<open>endDate\<close>, each bucket
  counting the events, and the unique ones, of its day. The day of \<open>endDate\<close> has a
  bucket exactly when the time of day of \<open>startDate\<close> is not later than that of
  \<open>endDate\<close>.
\<close>

lemma same_day:
  "((c div msPerDay) * msPerDay \<le> t \<and> t < (c div msPerDay) * msPerDay + msPerDay)
     = (t div msPerDay = c div msPerDay)"
  unfolding msPerDay_def by arith

lemma next_day: "(s + msPerDay) div msPerDay = s div msPerDay + 1"
  unfolding msPerDay_def by simp

lemma days_between:
  "s + msPerDay \<le> e \<Longrightarrow> nat ((e - s) div msPerDay + 1) = Suc (nat ((e - (s + msPerDay)) div msPerDay + 1))"
  unfolding msPerDay_def by arith

lemma days_within: "s \<le> e \<Longrightarrow> \<not> s + msPerDay \<le> e \<Longrightarrow> nat ((e - s) div msPerDay + 1) = 1"
  unfolding msPerDay_def by arith

lemma dayBucket_counts:
  "bucket_date (dayBucket as c) = c div msPerDay
   \<and> bucket_clicks (dayBucket as c) = length (filter (\<lambda>a. timestamp a div msPerDay = c div msPerDay) as)
   \<and> bucket_uniqueVisitors (dayBucket as c)
       = length (filter (\<lambda>a. timestamp a div msPerDay = c div msPerDay \<and> isUnique a) as)"
  by (simp add: dayBucket_def startOfDay_def endOfDay_def Let_def same_day conj_commute)

lemma timeSeriesLoop_dates:
  "map bucket_date (timeSeriesLoop as s e) =
     (if s \<le> e then map (\<lambda>k. s div msPerDay + int k) [0..<nat ((e - s) div msPerDay + 1)] else [])"
proof (induction as s e rule: timeSeriesLoop.induct)
  case (1 as s e)
  show ?case
  proof (cases "s \<le> e")
    case False
    then show ?thesis by (simp add: timeSeriesLoop.simps [of as s e])
  next
    case True
    show ?thesis
    proof (cases "s + msPerDay \<le> e")
      case False
      with True "1.IH" show ?thesis
        by (simp add: timeSeriesLoop.simps [of as s e] dayBucket_counts days_within)
    next
      case nd: True
      have "map (\<lambda>k. s div msPerDay + int k) [0..<Suc n] =
              s div msPerDay # map (\<lambda>k. s div msPerDay + 1 + int k) [0..<n]" for n
        by (simp add: upt_rec [of 0 "Suc n"] map_Suc_upt [symmetric] del: upt_Suc)
      with True nd "1.IH" show ?thesis
        by (simp add: timeSeriesLoop.simps [of as s e] dayBucket_counts days_between next_day
              del: upt_Suc)
    qed
  qed
qed


lemma multiple_between:
  "0 < D \<Longrightarrow> m * D < k * D \<Longrightarrow> k * D < (m + 2) * D \<Longrightarrow> k = m + (1::int)"
  by (auto simp: mult_less_cancel_right_disj)

lemma day_difference:
  "s \<le> e \<Longrightarrow>
     (s mod msPerDay \<le> e mod msPerDay \<longrightarrow> e div msPerDay = s div msPerDay + (e - s) div msPerDay)
     \<and> (e mod msPerDay < s mod msPerDay \<longrightarrow> e div msPerDay = s div msPerDay + (e - s) div msPerDay + 1)
     \<and> 0 \<le> (e - s) div msPerDay"
proof -
  assume se: "s \<le> e"
  define a r b t q u where "a = s div 86400000" and "r = s mod 86400000"
    and "b = e div 86400000" and "t = e mod 86400000"
    and "q = (e - s) div 86400000" and "u = (e - s) mod 86400000"
  have s: "s = a * 86400000 + r" and r: "0 \<le> r" "r < 86400000"
    by (simp_all add: a_def r_def)
  have e: "e = b * 86400000 + t" and t: "0 \<le> t" "t < 86400000"
    by (simp_all add: b_def t_def)
  have d: "e - s = q * 86400000 + u" and u: "0 \<le> u" "u < 86400000"
    by (simp_all add: q_def u_def)
  have k: "(b - a - q) * 86400000 = u - (t - r)"
    using s e d by (simp add: algebra_simps)
  have c1: "b = a + q" if "r \<le> t"
  proof -
    from k that r t u have "- 86400000 < (b - a - q) * 86400000"
      and "(b - a - q) * 86400000 < 86400000"
      by linarith+
    then have lo: "(- 1) * 86400000 < (b - a - q) * 86400000"
      and hi: "(b - a - q) * 86400000 < (- 1 + 2) * 86400000"
      by simp_all
    from multiple_between [OF _ lo hi] have "b - a - q = - 1 + 1" by simp
    then show ?thesis by simp
  qed
  have c2: "b = a + q + 1" if "t < r"
  proof -
    from k that r t u have "0 < (b - a - q) * 86400000"
      and "(b - a - q) * 86400000 < 172800000"
      by linarith+
    then have lo: "0 * 86400000 < (b - a - q) * 86400000"
      and hi: "(b - a - q) * 86400000 < (0 + 2) * 86400000"
      by simp_all
    from multiple_between [OF _ lo hi] have "b - a - q = 0 + 1" by simp
    then show ?thesis by simp
  qed
  have q0: "0 \<le> q" using se by (simp add: q_def pos_imp_zdiv_nonneg_iff)
  from c1 c2 q0 show ?thesis
    by (simp add: msPerDay_def a_def r_def b_def t_def q_def)
qed

lemma end_day_covered:
  assumes se: "s \<le> e"
  shows "(e div msPerDay \<in> set (map bucket_date (processTimeSeriesData as s e)))
           = (s mod msPerDay \<le> e mod msPerDay)"
proof -
  let ?n = "nat ((e - s) div msPerDay + 1)"
  from day_difference [OF se]
  have c1: "s mod msPerDay \<le> e mod msPerDay \<Longrightarrow> e div msPerDay = s div msPerDay + (e - s) div msPerDay"
    and c2: "e mod msPerDay < s mod msPerDay \<Longrightarrow> e div msPerDay = s div msPerDay + (e - s) div msPerDay + 1"
    and q0: "0 \<le> (e - s) div msPerDay" by simp_all
  have dates: "set (map bucket_date (processTimeSeriesData as s e))
                 = (\<lambda>k. s div msPerDay + int k) ` {0..<?n}"
    using se by (simp add: processTimeSeriesData_def timeSeriesLoop_dates)
  show ?thesis
  proof (cases "s mod msPerDay \<le> e mod msPerDay")
    case True
    from q0 have "nat ((e - s) div msPerDay) \<in> {0..<?n}" by simp
    moreover from c1 [OF True] q0
    have "e div msPerDay = s div msPerDay + int (nat ((e - s) div msPerDay))" by simp
    ultimately have "e div msPerDay \<in> (\<lambda>k. s div msPerDay + int k) ` {0..<?n}" by (rule image_eqI [rotated])
    with True dates show ?thesis by simp
  next
    case False
    then have lt: "e mod msPerDay < s mod msPerDay" by simp
    have "e div msPerDay \<notin> (\<lambda>k. s div msPerDay + int k) ` {0..<?n}"
    proof
      assume "e div msPerDay \<in> (\<lambda>k. s div msPerDay + int k) ` {0..<?n}"
      then obtain k where "k < ?n" "e div msPerDay = s div msPerDay + int k" by auto
      with c2 [OF lt] q0 show False by simp
    qed
    with False dates show ?thesis by simp
  qed
qed

text \<open>
  C9, at a failing input: the clock advances by a millisecond between the two readings of
  the route. The instant 1700000000000 lies in day 19675; the seven-day series then ends
  with day 19674 and counts no click, although an event of day 19675 lies in the window,
  and the 24-hour series has the single bucket of the day before. With both readings in
  the same millisecond the last day is present.
\<close>

theorem last_day_missing:
  "1700000000000 div msPerDay = 19675
   \<and> map bucket_date (url_timeSeries ''7d'' 1700000000000 1700000000001 1 [today])
       = [19668, 19669, 19670, 19671, 19672, 19673, 19674]
   \<and> map bucket_clicks (url_timeSeries ''7d'' 1700000000000 1700000000001 1 [today])
       = [0, 0, 0, 0, 0, 0, 0]
   \<and> url_timeSeries ''24h'' 1700000000000 1700000000001 1 [today]
       = [\<lparr>bucket_date = 19674, bucket_clicks = 0, bucket_uniqueVisitors = 0\<rparr>]
   \<and> url_timeSeries ''24h'' 1700000000000 1700000000000 1 [today]
       = [\<lparr>bucket_date = 19674, bucket_clicks = 0, bucket_uniqueVisitors = 0\<rparr>,
          \<lparr>bucket_date = 19675, bucket_clicks = 1, bucket_uniqueVisitors = 1\<rparr>]"
  by code_simp

section \<open>Concurrent visits of one visitor\<close>

lemma find_pairEvents: "find (samePair lid vid) (analytics st) = None \<longleftrightarrow> pairEvents lid vid st = []"
  by (auto simp: pairEvents_def find_None_iff filter_empty_conv)

lemma requiredOk_storable:
  "requiredOk (analyticsData lid req (generateVisitorId req) now ex) = storable req"
  by (cases "hdr_UserAgent req")
     (simp_all add: requiredOk_def analyticsData_def storable_def generateVisitorId_nonempty
        truthy_def or_empty_def)

lemma find_updateFirst:
  "(\<And>x. p (f x) = p x) \<Longrightarrow> find p (updateFirst p f xs) = map_option f (find p xs)"
  by (induction xs) simp_all

lemma uniqueVisitorsOf_inc:
  "uniqueVisitorsOf lid (st\<lparr>urls := findByIdAndUpdate lid incUniqueVisitors (urls st)\<rparr>)
     = map_option Suc (uniqueVisitorsOf lid st)"
  by (simp add: uniqueVisitorsOf_def findById_def findByIdAndUpdate_def find_updateFirst
        incUniqueVisitors_def option.map_comp comp_def)

lemma count_list_update:
  "i < length xs \<Longrightarrow>
     count_list (xs[i := y]) z + (if xs ! i = z then 1 else 0)
       = count_list xs z + (if y = z then 1 else 0)"
proof (induction xs arbitrary: i)
  case Nil
  then show ?case by simp
next
  case (Cons x xs)
  show ?case
  proof (cases i)
    case 0
    then show ?thesis by simp
  next
    case (Suc j)
    with Cons.prems have "j < length xs" by simp
    from Cons.IH [OF this] Suc show ?thesis by (auto split: if_splits)
  qed
qed

lemma step_AtFind:
  "trackStep lid req vid now AtFind st = (AtCreate (pairEvents lid vid st \<noteq> []), st)"
  using find_pairEvents [of lid vid st] by auto

lemma step_AtCreate:
  "trackStep lid req (generateVisitorId req) now (AtCreate ex) st =
     (if storable req \<and> pairEvents lid (generateVisitorId req) st = []
      then (if ex then Returned else AtIncrement,
            st\<lparr>analytics := analytics st @ [analyticsData lid req (generateVisitorId req) now ex]\<rparr>)
      else (Returned, st))"
proof -
  have "urlId (analyticsData lid req (generateVisitorId req) now ex) = lid"
       "visitorId (analyticsData lid req (generateVisitorId req) now ex) = generateVisitorId req"
    by (simp_all add: analyticsData_def)
  then show ?thesis
    using find_pairEvents [of lid "generateVisitorId req" st]
    by (auto simp: Analytics_create_def requiredOk_storable)
qed

lemma pairEvents_append:
  "pairEvents lid vid (st\<lparr>analytics := analytics st @ [analyticsData lid req vid now ex]\<rparr>)
     = pairEvents lid vid st @ [analyticsData lid req vid now ex]"
  by (simp add: pairEvents_def samePair_def analyticsData_def)

lemma pairEvents_urls: "pairEvents lid vid (st\<lparr>urls := us\<rparr>) = pairEvents lid vid st"
  by (simp add: pairEvents_def)

lemma uniqueVisitorsOf_analytics: "uniqueVisitorsOf lid (st\<lparr>analytics := as\<rparr>) = uniqueVisitorsOf lid st"
  by (simp add: uniqueVisitorsOf_def)

lemma isUnique_analyticsData: "isUnique (analyticsData lid req vid now ex) = (\<not> ex)"
  by (simp add: analyticsData_def)

lemma trackInv_step:
  assumes inv: "trackInv lid vid n visits cfg"
    and keys: "\<forall>v \<in> set visits. generateVisitorId (fst v) = vid"
  shows "trackInv lid vid n visits (schedStep lid visits cfg i)"
proof (cases "i < length visits")
  case False
  with inv show ?thesis by (simp add: schedStep_def trackInv_def)
next
  case True
  obtain pcs st where cfg: "cfg = (pcs, st)" by (cases cfg)
  from inv cfg have len: "length pcs = length visits" by (simp add: trackInv_def)
  from keys True have k: "generateVisitorId (fst (visits ! i)) = vid" by simp
  let ?req = "fst (visits ! i)" and ?now = "snd (visits ! i)"
  have step: "schedStep lid visits cfg i =
      (pcs[i := fst (trackStep lid ?req vid ?now (pcs ! i) st)],
       snd (trackStep lid ?req vid ?now (pcs ! i) st))"
    using True len cfg k by (simp add: schedStep_def Let_def)
  have cnt: "\<And>y. count_list (pcs[i := y]) AtIncrement + (if pcs ! i = AtIncrement then 1 else 0)
                 = count_list pcs AtIncrement + (if y = AtIncrement then 1 else 0)"
    using True len by (simp add: count_list_update)
  show ?thesis
  proof (cases "pcs ! i")
    case AtFind
    then have t: "trackStep lid ?req vid ?now (pcs ! i) st = (AtCreate (pairEvents lid vid st \<noteq> []), st)"
      by (simp only: step_AtFind)
    from cnt [of "AtCreate (pairEvents lid vid st \<noteq> [])"] AtFind
    have c: "count_list (pcs[i := AtCreate (pairEvents lid vid st \<noteq> [])]) AtIncrement
               = count_list pcs AtIncrement" by simp
    from inv show ?thesis
      unfolding step t using len True
      by (auto simp: trackInv_def cfg c nth_list_update)
  next
    case (AtCreate ex)
    have t: "trackStep lid ?req vid ?now (pcs ! i) st =
       (if storable ?req \<and> pairEvents lid vid st = []
        then (if ex then Returned else AtIncrement,
              st\<lparr>analytics := analytics st @ [analyticsData lid ?req vid ?now ex]\<rparr>)
        else (Returned, st))"
      using step_AtCreate [of lid ?req ?now ex st] k AtCreate by simp
    show ?thesis
    proof (cases "storable ?req \<and> pairEvents lid vid st = []")
      case False
      from cnt [of Returned] AtCreate
      have c: "count_list (pcs[i := Returned]) AtIncrement = count_list pcs AtIncrement" by simp
      from inv False show ?thesis
        unfolding step t using len True
        by (auto simp: trackInv_def cfg c nth_list_update)
    next
      case good: True
      with inv AtCreate True have ex: "\<not> ex"
        by (auto simp: trackInv_def cfg)
      from cnt [of AtIncrement] AtCreate
      have c: "count_list (pcs[i := AtIncrement]) AtIncrement = Suc (count_list pcs AtIncrement)" by simp
      from inv good ex show ?thesis
        unfolding step t using len True
        by (auto simp: trackInv_def cfg c nth_list_update pairEvents_append
              uniqueVisitorsOf_analytics isUnique_analyticsData)
    qed
  next
    case AtIncrement
    then have t: "trackStep lid ?req vid ?now (pcs ! i) st =
        (Returned, st\<lparr>urls := findByIdAndUpdate lid incUniqueVisitors (urls st)\<rparr>)"
      by simp
    from cnt [of Returned] AtIncrement
    have c: "Suc (count_list (pcs[i := Returned]) AtIncrement) = count_list pcs AtIncrement" by simp
    from inv c show ?thesis
      unfolding step t using len True
      by (auto simp: trackInv_def cfg nth_list_update pairEvents_urls uniqueVisitorsOf_inc)
  next
    case Returned
    then have t: "trackStep lid ?req vid ?now (pcs ! i) st = (Returned, st)" by simp
    from Returned have "pcs[i := Returned] = pcs" by (metis list_update_id)
    with inv show ?thesis unfolding step t by (simp add: cfg)
  qed
qed

lemma trackInv_run:
  "trackInv lid vid n visits cfg \<Longrightarrow> \<forall>v \<in> set visits. generateVisitorId (fst v) = vid
     \<Longrightarrow> trackInv lid vid n visits (runSchedule lid visits sched cfg)"
  unfolding runSchedule_def
  by (induction sched arbitrary: cfg) (simp_all add: trackInv_step)

lemma trackInv_init:
  "pairEvents lid vid st = [] \<Longrightarrow> uniqueVisitorsOf lid st = Some n
     \<Longrightarrow> trackInv lid vid n visits (replicate (length visits) AtFind, st)"
  by (simp add: trackInv_def count_list_0_iff)

text \<open>
  What the unique index gives a run of concurrent first visits. Take any number of visits
  of one stored link whose requests have the same visitor key, at least one of them with
  a non-empty address and \<open>User-Agent\<close>, starting from a store without an event for
  the pair. After any interleaving of their storage operations in which every visit has
  returned, one event of the pair is stored, it is marked unique, and the link's counter
  of unique visitors has grown by one.
\<close>

lemma concurrent_first_visits:
  assumes keys: "\<forall>v \<in> set visits. generateVisitorId (fst v) = vid"
    and fresh: "pairEvents lid vid st = []"
    and link: "uniqueVisitorsOf lid st = Some n"
    and some: "\<exists>v \<in> set visits. storable (fst v)"
    and run: "runSchedule lid visits sched (replicate (length visits) AtFind, st) = (pcs', st')"
    and fin: "\<forall>p \<in> set pcs'. p = Returned"
  shows "length (pairEvents lid vid st') = 1
         \<and> length (filter isUnique (pairEvents lid vid st')) = 1
         \<and> uniqueVisitorsOf lid st' = Some (n + 1)"
proof -
  have inv: "trackInv lid vid n visits (pcs', st')"
    using trackInv_run [OF trackInv_init [OF fresh link] keys, of sched] run by simp
  then have len: "length pcs' = length visits" by (simp add: trackInv_def)
  from some obtain i where i: "i < length visits" "storable (fst (visits ! i))"
    by (auto simp: in_set_conv_nth)
  with fin len have "pcs' ! i = Returned" by simp
  with inv i have ne: "pairEvents lid vid st' \<noteq> []" by (simp add: trackInv_def)
  with inv have one: "length (pairEvents lid vid st') = 1"
    by (cases "pairEvents lid vid st'") (simp_all add: trackInv_def)
  from inv have "\<forall>a \<in> set (pairEvents lid vid st'). isUnique a" by (simp add: trackInv_def)
  then have "filter isUnique (pairEvents lid vid st') = pairEvents lid vid st'" by simp
  with one have two: "length (filter isUnique (pairEvents lid vid st')) = 1" by simp
  from fin have "count_list pcs' AtIncrement = 0" by (auto simp: count_list_0_iff)
  with inv one have "uniqueVisitorsOf lid st' = Some (n + 1)" by (auto simp: trackInv_def)
  with one two show ?thesis by simp
qed


lemma sequential_run:
  "runSchedule lid [(req, now)] [0, 0, 0] ([AtFind], st)
     = ([Returned], trackAnalytics lid req (generateVisitorId req) now st)"
  by (simp add: runSchedule_def schedStep_def trackAnalytics_def Let_def split: sum.splits)

text \<open>
  C8, at a failing input: two concurrent visits of the sample link by one visitor whose
  requests have no \<open>User-Agent\<close> header. Such a request is resolved, but the event of
  either visit fails the schema's \<open>required\<close> check on \<open>userAgent\<close>, which
  \<open>trackAnalytics\<close> has set to the empty string: after the interleaved run both visits
  have returned, no event of the pair is stored, so none is marked unique, and the
  counter of unique visitors is what it was.
\<close>

theorem headless_visits_not_recorded:
  "fst (redirect_get ''promo'' None headless 50 shop) = Redirect ''https://example.com/a''
   \<and> runSchedule 1 [(headless, 50), (headless, 51)] [0, 1, 0, 1, 0, 1] ([AtFind, AtFind], shop)
       = ([Returned, Returned], shop)
   \<and> filter isUnique (pairEvents 1 (generateVisitorId headless) shop) = []
   \<and> uniqueVisitorsOf 1 shop = Some 0"
proof -
  have "fst (redirect_get ''promo'' None headless 50 shop) = Redirect ''https://example.com/a''"
    by (simp add: redirect_get_def findOneByHandle_def shop_def promo_def isExpired_def)
  moreover have "runSchedule 1 [(headless, 50), (headless, 51)] [0, 1, 0, 1, 0, 1]
                   ([AtFind, AtFind], shop) = ([Returned, Returned], shop)"
    by (simp add: runSchedule_def schedStep_def Analytics_create_def requiredOk_def analyticsData_def
          headless_def browser_def or_empty_def shop_def)
  moreover have "filter isUnique (pairEvents 1 (generateVisitorId headless) shop) = []"
    by (simp add: pairEvents_def shop_def)
  moreover have "uniqueVisitorsOf 1 shop = Some 0"
    by (simp add: uniqueVisitorsOf_def findById_def shop_def promo_def)
  ultimately show ?thesis by blast
qed

lemma concurrent_first_visits_example:
  "(\<exists>st'. runSchedule 1 [(browser, 50), (browser, 51)] [0, 1, 0, 1, 0, 1] ([AtFind, AtFind], shop)
             = ([Returned, Returned], st')
         \<and> length (pairEvents 1 ''ubx4g3'' st') = 1
         \<and> length (filter isUnique (pairEvents 1 ''ubx4g3'' st')) = 1
         \<and> uniqueVisitorsOf 1 st' = Some 1)"
proof -
  let ?visits = "[(browser, 50), (browser, 51)] :: (Request \<times> instant) list"
  have keys: "\<forall>v \<in> set ?visits. generateVisitorId (fst v) = ''ubx4g3''"
    by (simp add: browser_key)
  have fresh: "pairEvents 1 ''ubx4g3'' shop = []"
    by (simp add: pairEvents_def shop_def)
  have link: "uniqueVisitorsOf 1 shop = Some 0"
    by (simp add: uniqueVisitorsOf_def findById_def shop_def promo_def)
  have some: "\<exists>v \<in> set ?visits. storable (fst v)"
    by (simp add: storable_def browser_def js_or_def truthy_def)
  obtain st' where run: "runSchedule 1 ?visits [0, 1, 0, 1, 0, 1] (replicate (length ?visits) AtFind, shop)
                           = ([Returned, Returned], st')"
    by (simp add: runSchedule_def schedStep_def browser_key Analytics_create_def requiredOk_def
          analyticsData_def samePair_def shop_def Let_def)
  have fin: "\<forall>p \<in> set [Returned, Returned]. p = Returned" by simp
  from concurrent_first_visits [OF keys fresh link some run fin] run
  show ?thesis by (simp add: numeral_2_eq_2)
qed

end
